theory Spec2Isabelle
  imports Main "HOL-Library.Sublist"
begin

section \<open>Protocol-version negotiator\<close>

text \<open>
  The gateway advertises an ordered list of semver ranges and picks one of them for each
  connecting client. The range test itself, \<^verbatim>\<open>semver.intersects\<close>, belongs to the
  semver package and is a parameter of the negotiator here.
\<close>

definition protocolVersions :: "string list" where
  "protocolVersions = [''^0.4.0'', ''^0.3.0'', ''^0.2.0'', ''^0.1.0'']"

text \<open>
  The inner loop of \<^verbatim>\<open>selectProtocolVersion\<close>: for one client range, the first
  server range that intersects it.
\<close>

fun selectForConnectVersion ::
  "(string \<Rightarrow> string \<Rightarrow> bool) \<Rightarrow> string \<Rightarrow> string list \<Rightarrow> string option" where
  "selectForConnectVersion intersects connectVersion [] = None"
| "selectForConnectVersion intersects connectVersion (protocolVersion # rest) =
     (if intersects protocolVersion connectVersion then Some protocolVersion
      else selectForConnectVersion intersects connectVersion rest)"

text \<open>
  The outer loop runs over the client's ranges in the order the client sent them; falling
  off the end of both loops returns \<^verbatim>\<open>undefined\<close>, here \<open>None\<close>.
\<close>

fun selectProtocolVersion ::
  "(string \<Rightarrow> string \<Rightarrow> bool) \<Rightarrow> string list \<Rightarrow> string option" where
  "selectProtocolVersion intersects [] = None"
| "selectProtocolVersion intersects (connectVersion # rest) =
     (case selectForConnectVersion intersects connectVersion protocolVersions of
        Some protocolVersion \<Rightarrow> Some protocolVersion
      | None \<Rightarrow> selectProtocolVersion intersects rest)"

text \<open>
  The negotiation rule as the specification words it: the first element of the server
  list whose range intersects any client range.
\<close>

definition specSelectProtocolVersion ::
  "(string \<Rightarrow> string \<Rightarrow> bool) \<Rightarrow> string list \<Rightarrow> string option" where
  "specSelectProtocolVersion intersects connectVersions =
     find (\<lambda>protocolVersion. list_ex (intersects protocolVersion) connectVersions)
       protocolVersions"

subsection \<open>Caret ranges\<close>

text \<open>
  Modelled from the spec: the semver package is not part of the sources, and the
  specification only says that intersection follows standard range semantics. The
  fragment below covers the caret ranges \<^verbatim>\<open>^M.m.p\<close> that the server list is made
  of: \<^verbatim>\<open>^M.m.p\<close> with \<open>M > 0\<close> admits versions from \<open>M.m.p\<close> up to, not
  including, \<open>(M+1).0.0\<close>; \<^verbatim>\<open>^0.m.p\<close> with \<open>m > 0\<close> stops before
  \<open>0.(m+1).0\<close>; \<^verbatim>\<open>^0.0.p\<close> stops before \<open>0.0.(p+1)\<close>. Two ranges
  intersect when each one's lower bound lies below the other's upper bound. A string
  outside the fragment intersects nothing in this model.
\<close>

text \<open>A decimal digit is worth its position in the string of the ten digits.\<close>

definition digitValue :: "char \<Rightarrow> nat option" where
  "digitValue c = map_of (zip ''0123456789'' [0, 1, 2, 3, 4, 5, 6, 7, 8, 9]) c"

fun parseDigits :: "nat \<Rightarrow> string \<Rightarrow> nat option" where
  "parseDigits acc [] = Some acc"
| "parseDigits acc (c # cs) =
     (case digitValue c of
        None \<Rightarrow> None
      | Some d \<Rightarrow> parseDigits (10 * acc + d) cs)"

definition parseNumber :: "string \<Rightarrow> nat option" where
  "parseNumber s = (if s = [] then None else parseDigits 0 s)"

fun splitDots :: "string \<Rightarrow> string \<Rightarrow> string list" where
  "splitDots cur [] = [rev cur]"
| "splitDots cur (c # cs) =
     (if c = CHR ''.'' then rev cur # splitDots [] cs else splitDots (c # cur) cs)"

type_synonym semverTriple = "nat \<times> nat \<times> nat"

definition parseCaret :: "string \<Rightarrow> semverTriple option" where
  "parseCaret s =
     (case s of
        [] \<Rightarrow> None
      | c # cs \<Rightarrow>
          if c = CHR ''^'' then
            (case map parseNumber (splitDots [] cs) of
               [Some major, Some minor, Some patch] \<Rightarrow> Some (major, minor, patch)
             | _ \<Rightarrow> None)
          else None)"

fun caretUpper :: "semverTriple \<Rightarrow> semverTriple" where
  "caretUpper (major, minor, patch) =
     (if 0 < major then (major + 1, 0, 0)
      else if 0 < minor then (0, minor + 1, 0)
      else (0, 0, patch + 1))"

fun versionLess :: "semverTriple \<Rightarrow> semverTriple \<Rightarrow> bool" where
  "versionLess (a, b, c) (d, e, f) =
     (a < d \<or> (a = d \<and> (b < e \<or> (b = e \<and> c < f))))"

definition semverIntersects :: "string \<Rightarrow> string \<Rightarrow> bool" where
  "semverIntersects r1 r2 =
     (case (parseCaret r1, parseCaret r2) of
        (Some lo1, Some lo2) \<Rightarrow>
          versionLess lo1 (caretUpper lo2) \<and> versionLess lo2 (caretUpper lo1)
      | _ \<Rightarrow> False)"

section \<open>Wire values\<close>

text \<open>
  Operations arrive deserialised from the socket, so each one is a tree of JSON values:
  no two fields of a message share an array or an object. An object is a list of fields
  read by name; a field that is not there reads as \<^verbatim>\<open>undefined\<close>.
\<close>

datatype jsval =
    JUndefined
  | JNull
  | JBool bool
  | JNum int
  | JStr string
  | JArr "jsval list"
  | JObj "(string \<times> jsval) list"

type_synonym jsobj = "(string \<times> jsval) list"

definition getField :: "jsobj \<Rightarrow> string \<Rightarrow> jsval" where
  "getField obj k = (case map_of obj k of None \<Rightarrow> JUndefined | Some v \<Rightarrow> v)"

fun setField :: "string \<Rightarrow> jsval \<Rightarrow> jsobj \<Rightarrow> jsobj" where
  "setField k v [] = [(k, v)]"
| "setField k v ((k', v') # rest) =
     (if k' = k then (k, v) # rest else (k', v') # setField k v rest)"

text \<open>JavaScript truthiness, as the conditions of the handlers read it.\<close>

fun truthy :: "jsval \<Rightarrow> bool" where
  "truthy JUndefined = False"
| "truthy JNull = False"
| "truthy (JBool b) = b"
| "truthy (JNum n) = (n \<noteq> 0)"
| "truthy (JStr s) = (s \<noteq> [])"
| "truthy (JArr xs) = True"
| "truthy (JObj fs) = True"

text \<open>
  Property access on a value: an object yields the field, every other truthy value has
  no such property.
\<close>

fun getProperty :: "jsval \<Rightarrow> string \<Rightarrow> jsval" where
  "getProperty (JObj fs) k = getField fs k"
| "getProperty v k = JUndefined"

section \<open>Message sanitizer\<close>

datatype jsError = TypeError string

definition traceSpan :: "int \<Rightarrow> jsval" where
  "traceSpan now =
     JObj [(''action'', JStr ''start''), (''service'', JStr ''alfred''),
           (''timestamp'', JNum now)]"

text \<open>
  The trace-sampling branch of \<^verbatim>\<open>sanitizeMessage\<close>. It is entered when
  \<^verbatim>\<open>message.operation\<close> and \<^verbatim>\<open>message.operation.traces\<close> are truthy and the
  draw \<^verbatim>\<open>getRandomInt(100)\<close> is 0, and it mutates the inbound message. \<open>push\<close>
  exists on arrays only: on any other truthy value the call raises.
\<close>

definition sampleTrace :: "nat \<Rightarrow> int \<Rightarrow> jsobj \<Rightarrow> jsError + jsobj" where
  "sampleTrace rnd now message =
     (let operation = getField message ''operation'' in
      if truthy operation \<and> truthy (getProperty operation ''traces'') \<and> rnd = 0 then
        (case operation of
           JObj fields \<Rightarrow>
             (case getField fields ''traces'' of
                JArr traces \<Rightarrow>
                  Inr (setField ''operation''
                         (JObj (setField ''traces'' (JArr (traces @ [traceSpan now])) fields))
                         message)
              | _ \<Rightarrow> Inl (TypeError ''message.operation.traces.push is not a function''))
         | _ \<Rightarrow> Inr message)
      else Inr message)"

text \<open>
  \<^verbatim>\<open>sanitizeMessage\<close> returns the inbound message as the sampling left it, and the
  object literal built from it afterwards.
\<close>

definition sanitizeMessage :: "nat \<Rightarrow> int \<Rightarrow> jsobj \<Rightarrow> jsError + (jsobj \<times> jsobj)" where
  "sanitizeMessage rnd now message =
     (case sampleTrace rnd now message of
        Inl e \<Rightarrow> Inl e
      | Inr message' \<Rightarrow>
          Inr (message',
               [(''clientSequenceNumber'', getField message' ''clientSequenceNumber''),
                (''contents'', getField message' ''contents''),
                (''metadata'', getField message' ''metadata''),
                (''referenceSequenceNumber'', getField message' ''referenceSequenceNumber''),
                (''traces'', getField message' ''traces''),
                (''type'', getField message' ''type'')]))"

definition sanitizedFieldNames :: "string list" where
  "sanitizedFieldNames =
     [''clientSequenceNumber'', ''contents'', ''metadata'', ''referenceSequenceNumber'',
      ''traces'', ''type'']"

section \<open>Throttle guard\<close>

record ThrottleError =
  throttleCode :: int
  throttleMessage :: string
  throttleRetryAfter :: int

text \<open>
  What one \<^verbatim>\<open>incrementCount\<close> call does: return, raise a
  \<^verbatim>\<open>ThrottlingError\<close>, or raise something else.
\<close>

datatype throttleOutcome = CountOk | ThrowsThrottling ThrottleError | ThrowsOther

type_synonym IThrottler = "string \<Rightarrow> throttleOutcome"

definition getSocketConnectThrottleId :: "string \<Rightarrow> string" where
  "getSocketConnectThrottleId tenantId = tenantId @ ''_OpenSocketConn''"

definition getSubmitOpThrottleId :: "string \<Rightarrow> string \<Rightarrow> string" where
  "getSubmitOpThrottleId clientId tenantId = clientId @ ''_'' @ tenantId @ ''_SubmitOp''"

text \<open>
  \<^verbatim>\<open>checkThrottle\<close>: a failure of the limiter other than a throttling error is
  logged and yields no error. The tenant id only feeds that log line.
\<close>

definition checkThrottle :: "IThrottler option \<Rightarrow> string \<Rightarrow> string \<Rightarrow> ThrottleError option" where
  "checkThrottle throttler throttleId tenantId =
     (case throttler of
        None \<Rightarrow> None
      | Some incrementCount \<Rightarrow>
          (case incrementCount throttleId of
             CountOk \<Rightarrow> None
           | ThrowsThrottling error \<Rightarrow> Some error
           | ThrowsOther \<Rightarrow> None))"

section \<open>Rooms, scopes and clients\<close>

record IRoom =
  roomTenantId :: string
  roomDocumentId :: string

definition getRoomId :: "IRoom \<Rightarrow> string" where
  "getRoomId room = roomTenantId room @ ''/'' @ roomDocumentId room"

definition summarizerClientType :: string where
  "summarizerClientType = ''summarizer''"

text \<open>
  Modelled from the spec: the scope tokens and the scope helpers \<^verbatim>\<open>canWrite\<close> and
  \<^verbatim>\<open>canSummarize\<close> are imported by the gateway and are not among the sources. The
  specification names the scopes \<open>DocRead\<close>, \<open>DocWrite\<close> and \<open>SummaryWrite\<close>, and
  a scope set grants write access when it holds \<open>DocWrite\<close>, summarising when it holds
  \<open>SummaryWrite\<close>.
\<close>

definition DocRead :: string where
  "DocRead = ''doc:read''"

definition DocWrite :: string where
  "DocWrite = ''doc:write''"

definition SummaryWrite :: string where
  "SummaryWrite = ''summary:write''"

definition canWrite :: "string list \<Rightarrow> bool" where
  "canWrite scopes = (DocWrite \<in> set scopes)"

definition canSummarize :: "string list \<Rightarrow> bool" where
  "canSummarize scopes = (SummaryWrite \<in> set scopes)"

definition hasWriteAccess :: "string list \<Rightarrow> bool" where
  "hasWriteAccess scopes = (canWrite scopes \<or> canSummarize scopes)"

definition isWriter :: "string list \<Rightarrow> string \<Rightarrow> bool" where
  "isWriter scopes mode = (if hasWriteAccess scopes then mode = ''write'' else False)"

text \<open>
  The fields of the protocol's records that the gateway reads or writes. A client
  descriptor comes from the client and may lack any of them.
\<close>

record ITokenClaims =
  claimsTenantId :: string
  claimsDocumentId :: string
  claimsUser :: string
  claimsScopes :: "string list"
  claimsIat :: int
  claimsExp :: int

record IClientDetails =
  detailsType :: "string option"

record IClient =
  clientDetails :: "IClientDetails option"
  clientUser :: "string option"
  clientScopes :: "string list option"
  clientTimestamp :: "int option"

record IConnect =
  msgTenantId :: string
  msgId :: string
  msgToken :: "string option"
  msgClient :: "IClient option"
  msgVersions :: "string list option"
  msgMode :: string

record ISignalClient =
  signalClientId :: string
  signalClient :: IClient

record IServiceConfiguration =
  blockSize :: int
  configMaxMessageSize :: int
  summary :: string

record IOrdererConnection =
  ordererTenantId :: string
  ordererDocumentId :: string
  ordererMaxMessageSize :: int
  ordererServiceConfiguration :: IServiceConfiguration

record IConnected =
  claims :: ITokenClaims
  clientId :: string
  existing :: bool
  maxMessageSize :: int
  mode :: string
  serviceConfiguration :: IServiceConfiguration
  initialClients :: "ISignalClient list"
  initialMessages :: "jsobj list"
  initialSignals :: "jsobj list"
  supportedVersions :: "string list"
  version :: string
  timestamp :: int

record IConnectedClient =
  connection :: IConnected
  details :: IClient
  connectVersions :: "string list"

section \<open>Errors and effects\<close>

text \<open>
  What \<^verbatim>\<open>connectDocument\<close> rejects with: a throttling error, an object
  \<^verbatim>\<open>{code, message, retryAfter?}\<close>, or whatever the token library raised.
\<close>

datatype rejection =
    ThrottleRejection ThrottleError
  | Rejection int string "int option"
  | Thrown string

text \<open>
  \<^verbatim>\<open>handleServerError\<close> logs and rejects with the same opaque object every time.
\<close>

definition handleServerError :: rejection where
  "handleServerError = Rejection 500 ''Failed to connect client to document.'' None"

datatype NackErrorType = ThrottlingError | InvalidScopeError | BadRequestError

text \<open>
  Modelled from the spec: \<^verbatim>\<open>createNackMessage\<close> and
  \<^verbatim>\<open>createRoomJoinMessage\<close> live in a utilities module that is not among the
  sources. A nack message has the shape \<^verbatim>\<open>{code, type, message, retryAfter?}\<close>; a
  room-join signal carries the client id and the client descriptor.
\<close>

record INack =
  nackCode :: int
  nackType :: NackErrorType
  nackMessage :: string
  nackRetryAfter :: "int option"

definition createNackMessage :: "int \<Rightarrow> NackErrorType \<Rightarrow> string \<Rightarrow> int option \<Rightarrow> INack" where
  "createNackMessage code type message retryAfter =
     \<lparr>nackCode = code, nackType = type, nackMessage = message, nackRetryAfter = retryAfter\<rparr>"

text \<open>
  The calls a handler makes on the socket and on its collaborators, in the order it makes
  them. Log lines are left out.
\<close>

datatype effect =
    SocketJoin string
  | AddClient string string string IClient
  | OrdererConnect string IClient
  | ConnectionConnect string
  | EmitConnectDocumentSuccess IConnected
  | EmitConnectDocumentError rejection
  | EmitNack "INack list"
  | EmitRoomJoin string string IClient
  | Order IOrdererConnection "jsobj list"
  | WriteLatencyMetric jsval

section \<open>Per-socket state and collaborators\<close>

text \<open>
  The three maps a socket's handlers close over, and its expiration timer. An armed timer
  is kept as the instant at which it fires: the clock reading when it was set plus the
  delay the platform waits for the delay it was set with.
\<close>

record socketState =
  connectionsMap :: "string \<rightharpoonup> IOrdererConnection"
  roomMap :: "string \<rightharpoonup> IRoom"
  scopeMap :: "string \<rightharpoonup> string list"
  expirationTimer :: "int option"

definition newSocket :: socketState where
  "newSocket =
     \<lparr>connectionsMap = Map.empty, roomMap = Map.empty, scopeMap = Map.empty,
      expirationTimer = None\<rparr>"

record configuration =
  maxNumberOfClientsPerDocument :: int
  maxTokenLifetimeSec :: int
  isTokenExpiryEnabled :: bool
  connectThrottler :: "IThrottler option"
  submitOpThrottler :: "IThrottler option"
  defaultServiceConfiguration :: IServiceConfiguration

text \<open>What a rejected \<^verbatim>\<open>verifyToken\<close> carries in \<^verbatim>\<open>err.response\<close>.\<close>

record verifyError =
  responseStatus :: "int option"
  responseData :: "string option"

type_synonym IOrderer = "string \<Rightarrow> IClient \<Rightarrow> IOrdererConnection option"

text \<open>
  The collaborators as one \<^verbatim>\<open>connect_document\<close> finds them. A call that can fail
  returns \<open>None\<close>, \<open>False\<close> or \<open>Inl\<close> when it does. \<open>generateClientId\<close> is the
  id minted for this request and \<open>dateNow\<close> the clock reading.
\<close>

record collaborators =
  intersects :: "string \<Rightarrow> string \<Rightarrow> bool"
  jsonStringify :: "string list \<Rightarrow> string"
  validateTokenClaims :: "string \<Rightarrow> string \<Rightarrow> string \<Rightarrow> rejection + ITokenClaims"
  verifyToken :: "string \<Rightarrow> string \<Rightarrow> verifyError option"
  generateClientId :: string
  socketJoin :: "string \<Rightarrow> bool"
  dateNow :: int
  getClients :: "string \<Rightarrow> string \<Rightarrow> ISignalClient list option"
  addClient :: "string \<Rightarrow> string \<Rightarrow> string \<Rightarrow> IClient \<Rightarrow> bool"
  validateTokenClaimsExpiration :: "ITokenClaims \<Rightarrow> int \<Rightarrow> rejection + int"
  getOrderer :: "string \<Rightarrow> string \<Rightarrow> IOrderer option"

definition clearExpirationTimer :: "socketState \<Rightarrow> socketState" where
  "clearExpirationTimer s =
     (if expirationTimer s \<noteq> None then s\<lparr>expirationTimer := None\<rparr> else s)"

text \<open>
  The delay \<^verbatim>\<open>setTimeout\<close> really waits: the platform runs a delay below 1 ms or above
  2147483647 ms as a delay of 1 ms.
\<close>

definition timeoutDelay :: "int \<Rightarrow> int" where
  "timeoutDelay delay = (if delay < 1 \<or> 2147483647 < delay then 1 else delay)"

definition setExpirationTimer :: "int \<Rightarrow> int \<Rightarrow> socketState \<Rightarrow> socketState" where
  "setExpirationTimer now mSecUntilExpiration s =
     (clearExpirationTimer s)
       \<lparr>expirationTimer := Some (now + timeoutDelay mSecUntilExpiration)\<rparr>"

section \<open>Connect handler\<close>

definition emptyClient :: IClient where
  "emptyClient =
     \<lparr>clientDetails = None, clientUser = None, clientScopes = None, clientTimestamp = None\<rparr>"

definition isSummarizerClient :: "IClient \<Rightarrow> bool" where
  "isSummarizerClient messageClient =
     (case clientDetails messageClient of
        None \<Rightarrow> False
      | Some d \<Rightarrow> detailsType d = Some summarizerClientType)"

text \<open>
  The scopes given to the client: those of the claims, without \<open>SummaryWrite\<close> unless
  the client says it is a summarizer.
\<close>

definition effectiveScopes :: "IConnect \<Rightarrow> ITokenClaims \<Rightarrow> string list" where
  "effectiveScopes message tokenClaims =
     (let messageClient = (case msgClient message of Some c \<Rightarrow> c | None \<Rightarrow> emptyClient) in
      if \<not> isSummarizerClient messageClient
      then filter (\<lambda>scope. scope \<noteq> SummaryWrite) (claimsScopes tokenClaims)
      else claimsScopes tokenClaims)"

definition composeClient :: "IConnect \<Rightarrow> ITokenClaims \<Rightarrow> int \<Rightarrow> IClient" where
  "composeClient message tokenClaims connectedTimestamp =
     (let messageClient = (case msgClient message of Some c \<Rightarrow> c | None \<Rightarrow> emptyClient) in
      messageClient
        \<lparr>clientUser := Some (claimsUser tokenClaims),
         clientScopes := Some (effectiveScopes message tokenClaims),
         clientTimestamp := Some connectedTimestamp\<rparr>)"

fun joinComma :: "string list \<Rightarrow> string" where
  "joinComma [] = []"
| "joinComma [x] = x"
| "joinComma (x # y # rest) = x @ '','' @ joinComma (y # rest)"

definition unsupportedProtocol :: "collaborators \<Rightarrow> string list \<Rightarrow> rejection" where
  "unsupportedProtocol col versions =
     Rejection 400
       (''Unsupported client protocol. '' @ ''Server: '' @ joinComma protocolVersions @ ''. ''
          @ ''Client: '' @ jsonStringify col versions)
       None"

text \<open>
  \<^verbatim>\<open>connectDocument\<close> is one function in the source. It is cut in three here, at
  the protocol negotiation and at the mode selection; each part hands the state and the
  calls made so far to the next. The result is the state as the function leaves it, the
  calls it made, and the rejection or the value it resolves with.

  Last part: a writer gets an orderer connection, which is then stored in
  \<open>connectionsMap\<close>; a reader gets the default configuration. The error listener
  installed on the orderer connection only acts after the connect and is not modelled.
\<close>

definition attachOrderer ::
  "configuration \<Rightarrow> collaborators \<Rightarrow> socketState \<Rightarrow> effect list \<Rightarrow> IConnect \<Rightarrow> ITokenClaims
   \<Rightarrow> string \<Rightarrow> IClient \<Rightarrow> string list \<Rightarrow> string list \<Rightarrow> string \<Rightarrow> ISignalClient list
   \<Rightarrow> socketState \<times> effect list \<times> (rejection + IConnectedClient)" where
  "attachOrderer cfg col s effs message tokenClaims cid messageClient scopes versions
       chosen clients =
     (if isWriter scopes (msgMode message) then
        (case getOrderer col (claimsTenantId tokenClaims) (claimsDocumentId tokenClaims) of
           None \<Rightarrow> (s, effs, Inl handleServerError)
         | Some orderer \<Rightarrow>
             (case orderer cid messageClient of
                None \<Rightarrow> (s, effs @ [OrdererConnect cid messageClient], Inl handleServerError)
              | Some conn \<Rightarrow>
                  (s\<lparr>connectionsMap := (connectionsMap s)(cid \<mapsto> conn)\<rparr>,
                   effs @ [OrdererConnect cid messageClient, ConnectionConnect cid],
                   Inr \<lparr>connection =
                          \<lparr>claims = tokenClaims, clientId = cid, existing = True,
                           maxMessageSize = ordererMaxMessageSize conn, mode = ''write'',
                           serviceConfiguration =
                             \<lparr>blockSize = blockSize (ordererServiceConfiguration conn),
                              configMaxMessageSize =
                                configMaxMessageSize (ordererServiceConfiguration conn),
                              summary = summary (ordererServiceConfiguration conn)\<rparr>,
                           initialClients = clients, initialMessages = [],
                           initialSignals = [], supportedVersions = protocolVersions,
                           version = chosen, timestamp = dateNow col\<rparr>,
                        details = messageClient, connectVersions = versions\<rparr>)))
      else
        (s, effs,
         Inr \<lparr>connection =
                \<lparr>claims = tokenClaims, clientId = cid, existing = True,
                 maxMessageSize = 1024, mode = ''read'',
                 serviceConfiguration =
                   \<lparr>blockSize = blockSize (defaultServiceConfiguration cfg),
                    configMaxMessageSize =
                      configMaxMessageSize (defaultServiceConfiguration cfg),
                    summary = summary (defaultServiceConfiguration cfg)\<rparr>,
                 initialClients = clients, initialMessages = [], initialSignals = [],
                 supportedVersions = protocolVersions, version = chosen,
                 timestamp = dateNow col\<rparr>,
              details = messageClient, connectVersions = versions\<rparr>))"

text \<open>
  Middle part: the quota check against the registry's client list, the registration, and
  the arming of the expiration timer.
\<close>

definition admitClient ::
  "configuration \<Rightarrow> collaborators \<Rightarrow> socketState \<Rightarrow> effect list \<Rightarrow> IConnect \<Rightarrow> ITokenClaims
   \<Rightarrow> string \<Rightarrow> IClient \<Rightarrow> string list \<Rightarrow> string list \<Rightarrow> string
   \<Rightarrow> socketState \<times> effect list \<times> (rejection + IConnectedClient)" where
  "admitClient cfg col s effs message tokenClaims cid messageClient scopes versions chosen =
     (case getClients col (claimsTenantId tokenClaims) (claimsDocumentId tokenClaims) of
        None \<Rightarrow> (s, effs, Inl handleServerError)
      | Some clients \<Rightarrow>
          if int (length clients) > maxNumberOfClientsPerDocument cfg then
            (s, effs,
             Inl (Rejection 429 ''Too Many Clients Connected to Document'' (Some (5 * 60))))
          else
            (let effs' = effs @ [AddClient (claimsTenantId tokenClaims)
                                   (claimsDocumentId tokenClaims) cid messageClient] in
             if \<not> addClient col (claimsTenantId tokenClaims) (claimsDocumentId tokenClaims)
                    cid messageClient then
               (s, effs', Inl handleServerError)
             else if isTokenExpiryEnabled cfg then
               (case validateTokenClaimsExpiration col tokenClaims (maxTokenLifetimeSec cfg) of
                  Inl e \<Rightarrow> (s, effs', Inl e)
                | Inr lifeTimeMSec \<Rightarrow>
                    attachOrderer cfg col (setExpirationTimer (dateNow col) lifeTimeMSec s)
                      effs' message tokenClaims cid messageClient scopes versions chosen
                      clients)
             else
               attachOrderer cfg col s effs' message tokenClaims cid messageClient scopes
                 versions chosen clients))"

text \<open>
  First part: throttle, token presence, token claims, tenant verification, the minting of
  the client id, the two channel subscriptions, the client descriptor, the writes to
  \<open>scopeMap\<close> and \<open>roomMap\<close>, and the protocol negotiation. A missing
  \<^verbatim>\<open>versions\<close> field stands for the single range \<^verbatim>\<open>^0.1.0\<close>; an array, empty
  or not, is truthy and is used as it is.
\<close>

definition connectDocument ::
  "configuration \<Rightarrow> collaborators \<Rightarrow> socketState \<Rightarrow> IConnect
   \<Rightarrow> socketState \<times> effect list \<times> (rejection + IConnectedClient)" where
  "connectDocument cfg col s message =
     (case checkThrottle (connectThrottler cfg)
             (getSocketConnectThrottleId (msgTenantId message)) (msgTenantId message) of
        Some throttleError \<Rightarrow> (s, [], Inl (ThrottleRejection throttleError))
      | None \<Rightarrow>
          (case msgToken message of
             None \<Rightarrow> (s, [], Inl (Rejection 403 ''Must provide an authorization token'' None))
           | Some token \<Rightarrow>
               if token = [] then
                 (s, [], Inl (Rejection 403 ''Must provide an authorization token'' None))
               else
                 (case validateTokenClaims col token (msgId message) (msgTenantId message) of
                    Inl e \<Rightarrow> (s, [], Inl e)
                  | Inr tokenClaims \<Rightarrow>
                      (case verifyToken col (claimsTenantId tokenClaims) token of
                         Some err \<Rightarrow>
                           (s, [],
                            Inl (Rejection
                                   (case responseStatus err of None \<Rightarrow> 401 | Some c \<Rightarrow> c)
                                   (case responseData err of
                                      None \<Rightarrow> ''Invalid token''
                                    | Some d \<Rightarrow> d)
                                   None))
                       | None \<Rightarrow>
                           (let cid = generateClientId col;
                                room = \<lparr>roomTenantId = claimsTenantId tokenClaims,
                                        roomDocumentId = claimsDocumentId tokenClaims\<rparr>;
                                joins = [SocketJoin (getRoomId room),
                                         SocketJoin (''client#'' @ cid)]
                            in
                            if \<not> (socketJoin col (getRoomId room)
                                   \<and> socketJoin col (''client#'' @ cid)) then
                              (s, joins, Inl handleServerError)
                            else
                              (let messageClient =
                                     composeClient message tokenClaims (dateNow col);
                                   scopes = effectiveScopes message tokenClaims;
                                   s1 = s\<lparr>scopeMap := (scopeMap s)(cid \<mapsto> scopes),
                                          roomMap := (roomMap s)(cid \<mapsto> room)\<rparr>;
                                   versions =
                                     (case msgVersions message of
                                        Some vs \<Rightarrow> vs
                                      | None \<Rightarrow> [''^0.1.0''])
                               in
                               (case selectProtocolVersion (intersects col) versions of
                                  None \<Rightarrow> (s1, joins, Inl (unsupportedProtocol col versions))
                                | Some chosen \<Rightarrow>
                                    admitClient cfg col s1 joins message tokenClaims cid
                                      messageClient scopes versions chosen)))))))"

text \<open>
  The \<^verbatim>\<open>connect_document\<close> event: run \<^verbatim>\<open>connectDocument\<close>, then emit the
  success message and the room-join signal, or the error.
\<close>

definition connect_document ::
  "configuration \<Rightarrow> collaborators \<Rightarrow> socketState \<Rightarrow> IConnect \<Rightarrow> socketState \<times> effect list" where
  "connect_document cfg col s connectionMessage =
     (case connectDocument cfg col s connectionMessage of
        (s', effs, Inr message) \<Rightarrow>
          (s',
           effs @ [EmitConnectDocumentSuccess (connection message)]
             @ (case roomMap s' (clientId (connection message)) of
                  Some room \<Rightarrow>
                    [EmitRoomJoin (getRoomId room) (clientId (connection message))
                       (details message)]
                | None \<Rightarrow> []))
      | (s', effs, Inl error) \<Rightarrow> (s', effs @ [EmitConnectDocumentError error]))"

section \<open>Submit-op handler\<close>

text \<open>
  Modelled from the spec: the message types are declared with the protocol, outside the
  sources. The specification names the type \<open>RoundTrip\<close>, which marks the end of a
  latency round trip; any token distinct from those of the other types serves.
\<close>

definition RoundTrip :: string where
  "RoundTrip = ''tripComplete''"

text \<open>An element of the batches argument is one message or an array of messages.\<close>

datatype messageBatch = SingleMessage jsobj | MessageArray "jsobj list"

fun batchMessages :: "messageBatch \<Rightarrow> jsobj list" where
  "batchMessages (MessageArray messages) = messages"
| "batchMessages (SingleMessage message) = [message]"

text \<open>
  The filter callback: a round-trip message is dropped, after its traces, if it has any,
  went to the metric sink; every other message is kept.
\<close>

fun filterRoundTrip :: "jsobj list \<Rightarrow> effect list \<times> jsobj list" where
  "filterRoundTrip [] = ([], [])"
| "filterRoundTrip (message # rest) =
     (case filterRoundTrip rest of
        (effs, kept) \<Rightarrow>
          if getField message ''type'' = JStr RoundTrip then
            ((if truthy (getField message ''traces'')
              then [WriteLatencyMetric (getField message ''traces'')] else []) @ effs,
             kept)
          else (effs, message # kept))"

text \<open>
  The map over the kept messages. Message \<open>j\<close> of the batch is sanitized with the draw
  and the clock reading \<open>draws j\<close>; a raise ends the map.
\<close>

fun sanitizeAll :: "(nat \<Rightarrow> nat \<times> int) \<Rightarrow> nat \<Rightarrow> jsobj list \<Rightarrow> jsError + jsobj list" where
  "sanitizeAll draws j [] = Inr []"
| "sanitizeAll draws j (message # rest) =
     (case sanitizeMessage (fst (draws j)) (snd (draws j)) message of
        Inl e \<Rightarrow> Inl e
      | Inr (message', sanitized) \<Rightarrow>
          (case sanitizeAll draws (Suc j) rest of
             Inl e \<Rightarrow> Inl e
           | Inr sanitizedRest \<Rightarrow> Inr (sanitized # sanitizedRest)))"

definition processBatch ::
  "(nat \<Rightarrow> nat \<times> int) \<Rightarrow> IOrdererConnection \<Rightarrow> messageBatch \<Rightarrow> effect list \<times> jsError option"
  where
  "processBatch draws conn batch =
     (case filterRoundTrip (batchMessages batch) of
        (metrics, kept) \<Rightarrow>
          (case sanitizeAll draws 0 kept of
             Inl e \<Rightarrow> (metrics, Some e)
           | Inr sanitized \<Rightarrow>
               (metrics @ (if length sanitized > 0 then [Order conn sanitized] else []),
                None)))"

text \<open>
  The \<^verbatim>\<open>forEach\<close> over the batches, batch \<open>i\<close> drawing from \<open>draws i\<close>. A raise
  inside a batch leaves the handler: the later batches are not processed.
\<close>

fun processBatches ::
  "(nat \<Rightarrow> nat \<Rightarrow> nat \<times> int) \<Rightarrow> nat \<Rightarrow> IOrdererConnection \<Rightarrow> messageBatch list
   \<Rightarrow> effect list \<times> jsError option" where
  "processBatches draws i conn [] = ([], None)"
| "processBatches draws i conn (batch # rest) =
     (case processBatch (draws i) conn batch of
        (effs, Some e) \<Rightarrow> (effs, Some e)
      | (effs, None) \<Rightarrow>
          (case processBatches draws (Suc i) conn rest of
             (effs', r) \<Rightarrow> (effs @ effs', r)))"

text \<open>
  The \<^verbatim>\<open>submitOp\<close> event. It reads the maps and leaves them as they are, so the
  result is the calls made and the error raised, if any.
\<close>

definition submitOp ::
  "configuration \<Rightarrow> (nat \<Rightarrow> nat \<Rightarrow> nat \<times> int) \<Rightarrow> socketState \<Rightarrow> string \<Rightarrow> messageBatch list
   \<Rightarrow> effect list \<times> jsError option" where
  "submitOp cfg draws s cid messageBatches =
     (case connectionsMap s cid of
        None \<Rightarrow>
          (let nack =
             (case scopeMap s cid of
                Some clientScope \<Rightarrow>
                  if hasWriteAccess clientScope then
                    createNackMessage 400 BadRequestError ''Readonly client'' None
                  else if roomMap s cid \<noteq> None then
                    createNackMessage 403 InvalidScopeError ''Invalid scope'' None
                  else createNackMessage 400 BadRequestError ''Nonexistent client'' None
              | None \<Rightarrow>
                  if roomMap s cid \<noteq> None then
                    createNackMessage 403 InvalidScopeError ''Invalid scope'' None
                  else createNackMessage 400 BadRequestError ''Nonexistent client'' None)
           in ([EmitNack [nack]], None))
      | Some conn \<Rightarrow>
          (case checkThrottle (submitOpThrottler cfg)
                  (getSubmitOpThrottleId cid (ordererTenantId conn)) (ordererTenantId conn) of
             Some throttleError \<Rightarrow>
               ([EmitNack [createNackMessage (throttleCode throttleError) ThrottlingError
                             (throttleMessage throttleError)
                             (Some (throttleRetryAfter throttleError))]],
                None)
           | None \<Rightarrow> processBatches draws 0 conn messageBatches))"

section \<open>Views of a handler's calls\<close>

text \<open>The message lists handed to \<^verbatim>\<open>connection.order\<close>, in call order.\<close>

fun orderCalls :: "effect list \<Rightarrow> jsobj list list" where
  "orderCalls [] = []"
| "orderCalls (Order conn messages # rest) = messages # orderCalls rest"
| "orderCalls (e # rest) = orderCalls rest"


fun nackCalls :: "effect list \<Rightarrow> INack list list" where
  "nackCalls [] = []"
| "nackCalls (EmitNack nacks # rest) = nacks # nackCalls rest"
| "nackCalls (e # rest) = nackCalls rest"

text \<open>The six whitelisted fields of an inbound message, read from the message itself.\<close>

definition whitelistProjection :: "jsobj \<Rightarrow> jsobj" where
  "whitelistProjection message = map (\<lambda>k. (k, getField message k)) sanitizedFieldNames"

definition isRoundTrip :: "jsobj \<Rightarrow> bool" where
  "isRoundTrip message = (getField message ''type'' = JStr RoundTrip)"

text \<open>
  What a batch should put on the orderer when nothing raises: the projections of its
  messages other than round trips.
\<close>

definition batchSurvivors :: "messageBatch \<Rightarrow> jsobj list" where
  "batchSurvivors batch = filter (\<lambda>message. \<not> isRoundTrip message) (batchMessages batch)"

definition expectedOrders :: "messageBatch list \<Rightarrow> jsobj list list" where
  "expectedOrders batches =
     map (map whitelistProjection)
       (filter (\<lambda>kept. kept \<noteq> []) (map batchSurvivors batches))"


text \<open>
  The nack decision table of the specification for a client without an orderer
  connection, keyed on \<open>roomMap\<close>: a room member with write-capable scopes is a
  read-only client, a room member without them has the wrong scope, anyone else does not
  exist.
\<close>

definition specNack :: "socketState \<Rightarrow> string \<Rightarrow> INack" where
  "specNack s cid =
     (case roomMap s cid of
        None \<Rightarrow> createNackMessage 400 BadRequestError ''Nonexistent client'' None
      | Some room \<Rightarrow>
          if (case scopeMap s cid of Some scopes \<Rightarrow> hasWriteAccess scopes | None \<Rightarrow> False)
          then createNackMessage 400 BadRequestError ''Readonly client'' None
          else createNackMessage 403 InvalidScopeError ''Invalid scope'' None)"

text \<open>
  An inbound message whose sampling branch cannot raise: \<^verbatim>\<open>operation.traces\<close> is
  falsy or an array.
\<close>

definition tracesPushable :: "jsobj \<Rightarrow> bool" where
  "tracesPushable message =
     (case getProperty (getField message ''operation'') ''traces'' of
        JArr traces \<Rightarrow> True
      | v \<Rightarrow> \<not> truthy v)"

section \<open>Example requests\<close>

text \<open>
  A tenant \<open>t\<close> with a document \<open>d\<close>, and collaborators that accept every connect:
  the token library yields claims carrying both write scopes, the registry reports the
  given client list, the orderer hands out a connection.
\<close>

definition exampleServiceConfiguration :: IServiceConfiguration where
  "exampleServiceConfiguration =
     \<lparr>blockSize = 65436, configMaxMessageSize = 16384, summary = ''default''\<rparr>"

definition exampleConnection :: IOrdererConnection where
  "exampleConnection =
     \<lparr>ordererTenantId = ''t'', ordererDocumentId = ''d'', ordererMaxMessageSize = 16384,
      ordererServiceConfiguration = exampleServiceConfiguration\<rparr>"

definition exampleClaims :: "string \<Rightarrow> ITokenClaims" where
  "exampleClaims token =
     \<lparr>claimsTenantId = ''t'', claimsDocumentId = ''d'', claimsUser = ''u'',
      claimsScopes = [DocWrite, SummaryWrite], claimsIat = 0,
      claimsExp = (if token = ''late'' then 5 else 1)\<rparr>"

text \<open>
  Modelled from the spec: \<^verbatim>\<open>validateTokenClaimsExpiration\<close> belongs to the token
  library, which is not among the sources. The specification says that the expiration
  must lie within the maximal lifetime of the issuance and that the remaining lifetime is
  computed in milliseconds, and leaves the policy on other tokens to the library: here a
  token without an issuance or an expiration time, a token that lives too long and a
  token that has expired are rejected.
\<close>

definition tokenLifetime :: "int \<Rightarrow> ITokenClaims \<Rightarrow> int \<Rightarrow> rejection + int" where
  "tokenLifetime now tokenClaims maxLifetimeSec =
     (if claimsExp tokenClaims = 0 \<or> claimsIat tokenClaims = 0
         \<or> claimsExp tokenClaims - claimsIat tokenClaims > maxLifetimeSec then
        Inl (Rejection 403 ''Invalid token expiry'' None)
      else if claimsExp tokenClaims * 1000 - now < 0 then
        Inl (Rejection 401 ''Expired token'' None)
      else Inr (claimsExp tokenClaims * 1000 - now))"

definition stringifyRanges :: "string list \<Rightarrow> string" where
  "stringifyRanges versions =
     ''['' @ joinComma (map (\<lambda>v. [CHR 0x22] @ v @ [CHR 0x22]) versions) @ '']''"

definition exampleCollaborators :: "string \<Rightarrow> int \<Rightarrow> ISignalClient list \<Rightarrow> collaborators" where
  "exampleCollaborators cid now clients =
     \<lparr>intersects = semverIntersects,
      jsonStringify = stringifyRanges,
      validateTokenClaims = (\<lambda>token documentId tenantId. Inr (exampleClaims token)),
      verifyToken = (\<lambda>tenantId token. None),
      generateClientId = cid,
      socketJoin = (\<lambda>room. True),
      dateNow = now,
      getClients = (\<lambda>tenantId documentId. Some clients),
      addClient = (\<lambda>tenantId documentId clientId client. True),
      validateTokenClaimsExpiration = tokenLifetime now,
      getOrderer = (\<lambda>tenantId documentId. Some (\<lambda>clientId client. Some exampleConnection))\<rparr>"

definition exampleConfiguration :: configuration where
  "exampleConfiguration =
     \<lparr>maxNumberOfClientsPerDocument = 1000000, maxTokenLifetimeSec = 60 * 60,
      isTokenExpiryEnabled = False, connectThrottler = None, submitOpThrottler = None,
      defaultServiceConfiguration = exampleServiceConfiguration\<rparr>"

definition exampleConnect :: IConnect where
  "exampleConnect =
     \<lparr>msgTenantId = ''t'', msgId = ''d'', msgToken = Some ''token'', msgClient = None,
      msgVersions = Some [''^0.4.0''], msgMode = ''write''\<rparr>"

definition exampleSignalClient :: "string \<Rightarrow> ISignalClient" where
  "exampleSignalClient cid = \<lparr>signalClientId = cid, signalClient = emptyClient\<rparr>"

text \<open>A socket on which the writer \<open>c1\<close> of the example is connected.\<close>

definition writerSocket :: socketState where
  "writerSocket =
     \<lparr>connectionsMap = [''c1'' \<mapsto> exampleConnection],
      roomMap = [''c1'' \<mapsto> \<lparr>roomTenantId = ''t'', roomDocumentId = ''d''\<rparr>],
      scopeMap = [''c1'' \<mapsto> [DocWrite]],
      expirationTimer = None\<rparr>"

definition exampleThrottleError :: ThrottleError where
  "exampleThrottleError =
     \<lparr>throttleCode = 429, throttleMessage = ''throttled'', throttleRetryAfter = 1\<rparr>"

definition exampleOp :: jsobj where
  "exampleOp =
     [(''type'', JStr ''op''), (''clientSequenceNumber'', JNum 1),
      (''referenceSequenceNumber'', JNum 0), (''contents'', JStr ''x''),
      (''secret'', JStr ''s''),
      (''operation'', JObj [(''traces'', JArr [])])]"

definition exampleRoundTrip :: jsobj where
  "exampleRoundTrip = [(''type'', JStr RoundTrip), (''traces'', JArr [JNum 7])]"

definition exampleDraws :: "nat \<Rightarrow> nat \<Rightarrow> nat \<times> int" where
  "exampleDraws i j = (0, 5)"

text \<open>
  The client type a connect request asserts: \<^verbatim>\<open>message.client.details?.type\<close>,
  absent when the request carries no client or no details.
\<close>

definition requestedClientType :: "IConnect \<Rightarrow> string option" where
  "requestedClientType message =
     (case msgClient message of
        None \<Rightarrow> None
      | Some c \<Rightarrow> (case clientDetails c of None \<Rightarrow> None | Some d \<Rightarrow> detailsType d))"

text \<open>Variations of the example: a client cap of two, token expiry, a throttled submit.\<close>

definition quotaConfiguration :: configuration where
  "quotaConfiguration = exampleConfiguration\<lparr>maxNumberOfClientsPerDocument := 2\<rparr>"

definition expiryConfiguration :: configuration where
  "expiryConfiguration = exampleConfiguration\<lparr>isTokenExpiryEnabled := True\<rparr>"

definition throttledConfiguration :: configuration where
  "throttledConfiguration =
     exampleConfiguration\<lparr>submitOpThrottler := Some (\<lambda>key. ThrowsThrottling exampleThrottleError)\<rparr>"

definition containerConnect :: IConnect where
  "containerConnect =
     exampleConnect
       \<lparr>msgClient := Some (emptyClient\<lparr>clientDetails := Some \<lparr>detailsType = Some ''container''\<rparr>\<rparr>)\<rparr>"

definition exampleRoom :: IRoom where
  "exampleRoom = \<lparr>roomTenantId = ''t'', roomDocumentId = ''d''\<rparr>"

text \<open>A socket on which \<open>c2\<close> is connected with read scope only.\<close>

definition readerSocket :: socketState where
  "readerSocket =
     \<lparr>connectionsMap = Map.empty, roomMap = [''c2'' \<mapsto> exampleRoom],
      scopeMap = [''c2'' \<mapsto> [DocRead]], expirationTimer = None\<rparr>"

text \<open>
  Tokens for the expiry scenario, issued at second 1000: the token \<open>late\<close> expires at
  second 1005, every other one at second 1001. The second set of collaborators has an
  orderer manager that fails.
\<close>

definition expiringClaims :: "string \<Rightarrow> ITokenClaims" where
  "expiringClaims token =
     \<lparr>claimsTenantId = ''t'', claimsDocumentId = ''d'', claimsUser = ''u'',
      claimsScopes = [DocWrite], claimsIat = 1000,
      claimsExp = (if token = ''late'' then 1005 else 1001)\<rparr>"

definition expiryCollaborators :: "string \<Rightarrow> int \<Rightarrow> collaborators" where
  "expiryCollaborators cid now =
     (exampleCollaborators cid now [])
       \<lparr>validateTokenClaims := (\<lambda>token documentId tenantId. Inr (expiringClaims token))\<rparr>"

definition orderlessCollaborators :: "string \<Rightarrow> int \<Rightarrow> collaborators" where
  "orderlessCollaborators cid now =
     (expiryCollaborators cid now)\<lparr>getOrderer := (\<lambda>tenantId documentId. None)\<rparr>"

text \<open>
  Connects on one socket with token expiry enabled: \<open>c1\<close> at 1000000 ms with a token
  that expires at 1001000 ms; then \<open>c2\<close> at 1000010 ms with a token that expires at
  1005000 ms, once accepted and once rejected by the failing orderer manager.
\<close>

definition afterFirstConnect :: socketState where
  "afterFirstConnect =
     fst (connect_document expiryConfiguration (expiryCollaborators ''c1'' 1000000) newSocket
            exampleConnect)"

definition afterSecondConnect :: socketState where
  "afterSecondConnect =
     fst (connect_document expiryConfiguration (expiryCollaborators ''c2'' 1000010)
            afterFirstConnect (exampleConnect\<lparr>msgToken := Some ''late''\<rparr>))"

text \<open>An operation whose \<open>operation.traces\<close> is a string, and draws that never sample.\<close>

definition malformedOp :: jsobj where
  "malformedOp =
     [(''type'', JStr ''op''), (''contents'', JStr ''x''),
      (''operation'', JObj [(''traces'', JStr ''notarray'')])]"

definition quietDraws :: "nat \<Rightarrow> nat \<Rightarrow> nat \<times> int" where
  "quietDraws i j = (1, 5)"

section \<open>The steps of a connect before the negotiation\<close>

text \<open>
  What \<open>connectDocument\<close> has done when it comes to the protocol negotiation. The
  request has passed the throttle, it carries a token, the token library has produced
  claims, the tenant manager has accepted them and the socket has joined both channels.
\<close>

definition joinsRooms ::
  "configuration \<Rightarrow> collaborators \<Rightarrow> IConnect \<Rightarrow> string \<Rightarrow> ITokenClaims \<Rightarrow> bool" where
  "joinsRooms cfg col message token tokenClaims =
     (checkThrottle (connectThrottler cfg)
        (getSocketConnectThrottleId (msgTenantId message)) (msgTenantId message) = None
      \<and> msgToken message = Some token \<and> token \<noteq> []
      \<and> validateTokenClaims col token (msgId message) (msgTenantId message) = Inr tokenClaims
      \<and> verifyToken col (claimsTenantId tokenClaims) token = None
      \<and> socketJoin col
           (getRoomId \<lparr>roomTenantId = claimsTenantId tokenClaims,
                       roomDocumentId = claimsDocumentId tokenClaims\<rparr>)
      \<and> socketJoin col (''client#'' @ generateClientId col))"

text \<open>The state then: the scopes and the room of the new client id are in the maps.\<close>

definition stateAtNegotiation ::
  "socketState \<Rightarrow> collaborators \<Rightarrow> IConnect \<Rightarrow> ITokenClaims \<Rightarrow> socketState" where
  "stateAtNegotiation s col message tokenClaims =
     s\<lparr>scopeMap := (scopeMap s)(generateClientId col \<mapsto> effectiveScopes message tokenClaims),
       roomMap := (roomMap s)(generateClientId col \<mapsto>
          \<lparr>roomTenantId = claimsTenantId tokenClaims,
           roomDocumentId = claimsDocumentId tokenClaims\<rparr>)\<rparr>"

text \<open>The calls made by then: the two channel subscriptions.\<close>

definition callsAtNegotiation :: "collaborators \<Rightarrow> ITokenClaims \<Rightarrow> effect list" where
  "callsAtNegotiation col tokenClaims =
     [SocketJoin (getRoomId \<lparr>roomTenantId = claimsTenantId tokenClaims,
                             roomDocumentId = claimsDocumentId tokenClaims\<rparr>),
      SocketJoin (''client#'' @ generateClientId col)]"

text \<open>The ranges the negotiation runs on.\<close>

definition offeredVersions :: "IConnect \<Rightarrow> string list" where
  "offeredVersions message =
     (case msgVersions message of Some vs \<Rightarrow> vs | None \<Rightarrow> [''^0.1.0''])"

text \<open>
  The request goes on to the arming of the timer: the negotiation finds a version, the
  registry's client list is within the cap, and the registry takes the new client.
\<close>

definition registersClient ::
  "configuration \<Rightarrow> collaborators \<Rightarrow> IConnect \<Rightarrow> string \<Rightarrow> ITokenClaims \<Rightarrow> bool" where
  "registersClient cfg col message token tokenClaims =
     (joinsRooms cfg col message token tokenClaims
      \<and> selectProtocolVersion (intersects col) (offeredVersions message) \<noteq> None
      \<and> (case getClients col (claimsTenantId tokenClaims) (claimsDocumentId tokenClaims) of
            None \<Rightarrow> False
          | Some clients \<Rightarrow> int (length clients) \<le> maxNumberOfClientsPerDocument cfg)
      \<and> addClient col (claimsTenantId tokenClaims) (claimsDocumentId tokenClaims)
           (generateClientId col) (composeClient message tokenClaims (dateNow col)))"

section \<open>Evaluation of the definitions\<close>

lemmas semver_defs = semverIntersects_def parseCaret_def parseNumber_def digitValue_def
  protocolVersions_def

lemmas example_defs = exampleConfiguration_def exampleCollaborators_def exampleConnect_def
  exampleClaims_def exampleConnection_def exampleServiceConfiguration_def newSocket_def
  exampleSignalClient_def emptyClient_def quotaConfiguration_def expiryConfiguration_def
  throttledConfiguration_def containerConnect_def exampleRoom_def readerSocket_def
  writerSocket_def exampleThrottleError_def expiringClaims_def expiryCollaborators_def
  orderlessCollaborators_def tokenLifetime_def

lemmas connect_defs = connect_document_def connectDocument_def admitClient_def
  attachOrderer_def checkThrottle_def composeClient_def effectiveScopes_def
  isSummarizerClient_def isWriter_def hasWriteAccess_def canWrite_def canSummarize_def
  setExpirationTimer_def clearExpirationTimer_def getRoomId_def handleServerError_def
  getSocketConnectThrottleId_def DocWrite_def SummaryWrite_def DocRead_def
  summarizerClientType_def timeoutDelay_def Let_def

section \<open>The negotiator's loops\<close>

lemma list_ex_find: "list_ex P xs \<longleftrightarrow> find P xs \<noteq> None"
  by (auto simp: list_ex_iff find_None_iff)

lemma selectForConnectVersion_find:
  "selectForConnectVersion I connectVersion ps = find (\<lambda>p. I p connectVersion) ps"
  by (induction ps) auto

section \<open>The parts of connectDocument\<close>

lemma setExpirationTimer_fields:
  "roomMap (setExpirationTimer now ms s) = roomMap s"
  "scopeMap (setExpirationTimer now ms s) = scopeMap s"
  "connectionsMap (setExpirationTimer now ms s) = connectionsMap s"
  "expirationTimer (setExpirationTimer now ms s) = Some (now + timeoutDelay ms)"
  by (simp_all add: setExpirationTimer_def clearExpirationTimer_def)

lemma attachOrderer_result:
  assumes "attachOrderer cfg col s effs message tokenClaims cid messageClient scopes versions
             chosen clients = (s', effs', res)"
  shows "roomMap s' = roomMap s \<and> scopeMap s' = scopeMap s
    \<and> expirationTimer s' = expirationTimer s
    \<and> (\<forall>e. res = Inl e \<longrightarrow> connectionsMap s' = connectionsMap s)
    \<and> (\<forall>r. res = Inr r \<longrightarrow> clientId (connection r) = cid \<and> claims (connection r) = tokenClaims
            \<and> version (connection r) = chosen \<and> connectVersions r = versions
            \<and> details r = messageClient)
    \<and> set effs \<subseteq> set effs'"
  using assms
  by (auto simp: attachOrderer_def split: if_splits option.splits)

lemma attachOrderer_addClient:
  assumes "attachOrderer cfg col s effs message tokenClaims cid messageClient scopes versions
             chosen clients = (s', effs', res)"
    and "AddClient t d c cl \<in> set effs'"
  shows "AddClient t d c cl \<in> set effs"
  using assms
  by (auto simp: attachOrderer_def split: if_splits option.splits)

lemma attachOrderer_mode:
  "msgMode m1 = msgMode m2 \<Longrightarrow>
   attachOrderer cfg col s effs m1 tokenClaims cid messageClient scopes versions chosen clients
   = attachOrderer cfg col s effs m2 tokenClaims cid messageClient scopes versions chosen clients"
  by (simp add: attachOrderer_def)

lemma admitClient_mode:
  "msgMode m1 = msgMode m2 \<Longrightarrow>
   admitClient cfg col s effs m1 tokenClaims cid messageClient scopes versions chosen
   = admitClient cfg col s effs m2 tokenClaims cid messageClient scopes versions chosen"
  by (simp add: admitClient_def attachOrderer_mode [of m1 m2] Let_def
      split: option.splits sum.splits)

text \<open>
  \<open>admitClient\<close> either rejects and leaves the state alone, or registers the client,
  possibly arms the timer, and goes on to the orderer.
\<close>

lemma admitClient_cases:
  assumes "admitClient cfg col s effs message tokenClaims cid messageClient scopes versions
             chosen = (s', effs', res)"
  obtains (reject) e where "s' = s" and "res = Inl e"
      and "set effs' \<subseteq> insert (AddClient (claimsTenantId tokenClaims)
             (claimsDocumentId tokenClaims) cid messageClient) (set effs)"
  | (attach) s0 clients where
      "attachOrderer cfg col s0
         (effs @ [AddClient (claimsTenantId tokenClaims) (claimsDocumentId tokenClaims) cid
                    messageClient])
         message tokenClaims cid messageClient scopes versions chosen clients
       = (s', effs', res)"
      and "roomMap s0 = roomMap s" and "scopeMap s0 = scopeMap s"
      and "connectionsMap s0 = connectionsMap s"
      and "if isTokenExpiryEnabled cfg
           then \<exists>ms. validateTokenClaimsExpiration col tokenClaims (maxTokenLifetimeSec cfg)
                        = Inr ms
                  \<and> expirationTimer s0 = Some (dateNow col + timeoutDelay ms)
           else s0 = s"
      and "getClients col (claimsTenantId tokenClaims) (claimsDocumentId tokenClaims)
             = Some clients"
      and "int (length clients) \<le> maxNumberOfClientsPerDocument cfg"
      and "addClient col (claimsTenantId tokenClaims) (claimsDocumentId tokenClaims) cid
             messageClient"
  using assms
  by (auto simp: admitClient_def Let_def setExpirationTimer_fields
      split: if_splits option.splits sum.splits)

lemma admitClient_result:
  assumes "admitClient cfg col s effs message tokenClaims cid messageClient scopes versions
             chosen = (s', effs', res)"
  shows "roomMap s' = roomMap s \<and> scopeMap s' = scopeMap s
    \<and> (\<forall>e. res = Inl e \<longrightarrow> connectionsMap s' = connectionsMap s)
    \<and> (\<forall>r. res = Inr r \<longrightarrow> clientId (connection r) = cid \<and> claims (connection r) = tokenClaims
            \<and> version (connection r) = chosen \<and> connectVersions r = versions
            \<and> details r = messageClient)"
  using assms
proof (cases rule: admitClient_cases)
  case (reject e)
  then show ?thesis by simp
next
  case (attach s0 clients)
  from attachOrderer_result [OF attach(1)] attach(2-4) show ?thesis by simp
qed

lemma admitClient_addClient:
  assumes "admitClient cfg col s effs message tokenClaims cid messageClient scopes versions
             chosen = (s', effs', res)"
    and "AddClient t d c cl \<in> set effs'"
  shows "AddClient t d c cl \<in> set effs \<or> (c = cid \<and> cl = messageClient)"
  using assms(1)
proof (cases rule: admitClient_cases)
  case (reject e)
  with assms(2) show ?thesis by auto
next
  case (attach s0 clients)
  from attachOrderer_addClient [OF attach(1) assms(2)] show ?thesis by auto
qed

lemma admitClient_registers:
  assumes "admitClient cfg col s effs message tokenClaims cid messageClient scopes versions
             chosen = (s', effs', Inr r)"
  shows "AddClient (claimsTenantId tokenClaims) (claimsDocumentId tokenClaims) cid messageClient
           \<in> set effs'"
  using assms
proof (cases rule: admitClient_cases)
  case (reject e)
  then show ?thesis by simp
next
  case (attach s0 clients)
  from attachOrderer_result [OF attach(1)] show ?thesis by auto
qed

lemma admitClient_timer:
  assumes "admitClient cfg col s effs message tokenClaims cid messageClient scopes versions
             chosen = (s', effs', Inr r)"
  shows "if isTokenExpiryEnabled cfg
         then \<exists>ms. validateTokenClaimsExpiration col tokenClaims (maxTokenLifetimeSec cfg)
                      = Inr ms
                \<and> expirationTimer s' = Some (dateNow col + timeoutDelay ms)
         else expirationTimer s' = expirationTimer s"
  using assms
proof (cases rule: admitClient_cases)
  case (reject e)
  then show ?thesis by simp
next
  case (attach s0 clients)
  from attachOrderer_result [OF attach(1)] attach(5) show ?thesis
    by (auto split: if_splits)
qed

lemma admitClient_within_cap:
  assumes "admitClient cfg col s effs message tokenClaims cid messageClient scopes versions
             chosen = (s', effs', res)"
    and "getClients col (claimsTenantId tokenClaims) (claimsDocumentId tokenClaims)
           = Some clients"
    and "int (length clients) \<le> maxNumberOfClientsPerDocument cfg"
  shows "AddClient (claimsTenantId tokenClaims) (claimsDocumentId tokenClaims) cid messageClient
           \<in> set effs'"
  using assms
  by (auto simp: admitClient_def Let_def split: if_splits sum.splits
      dest!: attachOrderer_result)

text \<open>
  Whatever its outcome, \<open>admitClient\<close> leaves the timer as it was or has armed it for
  the token of the request, after the registry took the client.
\<close>

lemma admitClient_timer_any:
  assumes "admitClient cfg col s effs message tokenClaims cid messageClient scopes versions
             chosen = (s', effs', res)"
  shows "expirationTimer s' = expirationTimer s
       \<or> (isTokenExpiryEnabled cfg
          \<and> (\<exists>clients. getClients col (claimsTenantId tokenClaims)
                          (claimsDocumentId tokenClaims) = Some clients
                \<and> int (length clients) \<le> maxNumberOfClientsPerDocument cfg)
          \<and> addClient col (claimsTenantId tokenClaims) (claimsDocumentId tokenClaims) cid
               messageClient
          \<and> (\<exists>ms. validateTokenClaimsExpiration col tokenClaims (maxTokenLifetimeSec cfg)
                     = Inr ms
                \<and> expirationTimer s' = Some (dateNow col + timeoutDelay ms)))"
  using assms
proof (cases rule: admitClient_cases)
  case (reject e)
  then show ?thesis by simp
next
  case (attach s0 clients)
  from attachOrderer_result [OF attach(1)]
  have t: "expirationTimer s' = expirationTimer s0" by simp
  show ?thesis
  proof (cases "isTokenExpiryEnabled cfg")
    case True
    with attach(5) obtain ms where
      "validateTokenClaimsExpiration col tokenClaims (maxTokenLifetimeSec cfg) = Inr ms"
      and "expirationTimer s0 = Some (dateNow col + timeoutDelay ms)" by auto
    with t True attach(6-8) show ?thesis by auto
  next
    case False
    with attach(5) t show ?thesis by simp
  qed
qed

text \<open>
  \<open>connectDocument\<close> ends in one of three ways: before the maps are written, at the
  protocol negotiation with the maps already written, or inside \<open>admitClient\<close>.
\<close>

lemma connectDocument_cases:
  assumes "connectDocument cfg col s message = (s', effs, res)"
  obtains (early) e where "s' = s" and "res = Inl e"
      and "\<forall>t d c cl. AddClient t d c cl \<notin> set effs"
  | (negotiation) tokenClaims where
      "s' = s\<lparr>scopeMap := (scopeMap s)(generateClientId col \<mapsto>
                  effectiveScopes message tokenClaims),
              roomMap := (roomMap s)(generateClientId col \<mapsto>
                 \<lparr>roomTenantId = claimsTenantId tokenClaims,
                  roomDocumentId = claimsDocumentId tokenClaims\<rparr>)\<rparr>"
      and "selectProtocolVersion (intersects col)
             (case msgVersions message of Some vs \<Rightarrow> vs | None \<Rightarrow> [''^0.1.0'']) = None"
      and "res = Inl (unsupportedProtocol col
                        (case msgVersions message of Some vs \<Rightarrow> vs | None \<Rightarrow> [''^0.1.0'']))"
      and "\<forall>t d c cl. AddClient t d c cl \<notin> set effs"
  | (admit) tokenClaims chosen token where
      "msgToken message = Some token"
      and "validateTokenClaims col token (msgId message) (msgTenantId message)
             = Inr tokenClaims"
      and "selectProtocolVersion (intersects col)
             (case msgVersions message of Some vs \<Rightarrow> vs | None \<Rightarrow> [''^0.1.0''])
             = Some chosen"
      and "admitClient cfg col
             (s\<lparr>scopeMap := (scopeMap s)(generateClientId col \<mapsto>
                   effectiveScopes message tokenClaims),
               roomMap := (roomMap s)(generateClientId col \<mapsto>
                 \<lparr>roomTenantId = claimsTenantId tokenClaims,
                  roomDocumentId = claimsDocumentId tokenClaims\<rparr>)\<rparr>)
             [SocketJoin (getRoomId \<lparr>roomTenantId = claimsTenantId tokenClaims,
                                     roomDocumentId = claimsDocumentId tokenClaims\<rparr>),
              SocketJoin (''client#'' @ generateClientId col)]
             message tokenClaims (generateClientId col)
             (composeClient message tokenClaims (dateNow col))
             (effectiveScopes message tokenClaims)
             (case msgVersions message of Some vs \<Rightarrow> vs | None \<Rightarrow> [''^0.1.0''])
             chosen = (s', effs, res)"
      and "joinsRooms cfg col message token tokenClaims"
  using assms
  by (auto simp: connectDocument_def joinsRooms_def Let_def
      split: if_splits option.splits sum.splits)

text \<open>
  Once the steps before the negotiation have passed, \<open>connectDocument\<close> is the
  negotiation followed by \<open>admitClient\<close>.
\<close>

lemma connectDocument_at_negotiation:
  assumes "joinsRooms cfg col message token tokenClaims"
  shows "connectDocument cfg col s message =
     (case selectProtocolVersion (intersects col) (offeredVersions message) of
        None \<Rightarrow>
          (stateAtNegotiation s col message tokenClaims, callsAtNegotiation col tokenClaims,
           Inl (unsupportedProtocol col (offeredVersions message)))
      | Some chosen \<Rightarrow>
          admitClient cfg col (stateAtNegotiation s col message tokenClaims)
            (callsAtNegotiation col tokenClaims) message tokenClaims (generateClientId col)
            (composeClient message tokenClaims (dateNow col))
            (effectiveScopes message tokenClaims) (offeredVersions message) chosen)"
  using assms
  by (simp add: connectDocument_def joinsRooms_def stateAtNegotiation_def
      callsAtNegotiation_def offeredVersions_def Let_def split: option.splits)

lemma connect_document_keeps_calls:
  "set (fst (snd (connectDocument cfg col s message)))
     \<subseteq> set (snd (connect_document cfg col s message))"
  by (auto simp: connect_document_def split: prod.splits sum.splits)

lemma connect_document_state:
  "fst (connect_document cfg col s message) = fst (connectDocument cfg col s message)"
  by (auto simp: connect_document_def split: prod.splits sum.splits)

text \<open>
  Every rejection reaches the socket as a \<^verbatim>\<open>connect_document_error\<close>, and a rejected
  connect never touches \<open>connectionsMap\<close>. The two key sets of \<open>scopeMap\<close> and
  \<open>roomMap\<close> stay equal whatever the outcome.
\<close>

lemma connect_document_rejected_emits_error:
  assumes "connectDocument cfg col s message = (s', effs, Inl e)"
  shows "connect_document cfg col s message = (s', effs @ [EmitConnectDocumentError e])"
  using assms by (simp add: connect_document_def)

lemma connectDocument_rejected_connectionsMap:
  assumes "connectDocument cfg col s message = (s', effs, Inl e)"
  shows "connectionsMap s' = connectionsMap s"
  using assms
proof (cases rule: connectDocument_cases)
  case (early e)
  then show ?thesis by simp
next
  case (negotiation tokenClaims)
  then show ?thesis by simp
next
  case (admit tokenClaims chosen token)
  from admitClient_result [OF admit(4)] show ?thesis by simp
qed

lemma connectDocument_same_keys:
  assumes "connectDocument cfg col s message = (s', effs, res)"
    and "dom (scopeMap s) = dom (roomMap s)"
  shows "dom (scopeMap s') = dom (roomMap s')"
  using assms(1)
proof (cases rule: connectDocument_cases)
  case (early e)
  with assms(2) show ?thesis by simp
next
  case (negotiation tokenClaims)
  with assms(2) show ?thesis by simp
next
  case (admit tokenClaims chosen token)
  from admitClient_result [OF admit(4)] assms(2) show ?thesis by simp
qed

lemma effectiveScopes_no_summary:
  assumes "requestedClientType message \<noteq> Some summarizerClientType"
  shows "SummaryWrite \<notin> set (effectiveScopes message tokenClaims)"
  using assms
  by (auto simp: effectiveScopes_def requestedClientType_def isSummarizerClient_def
      emptyClient_def Let_def split: option.splits)

lemma composeClient_scopes:
  "clientScopes (composeClient message tokenClaims now)
     = Some (effectiveScopes message tokenClaims)"
  by (simp add: composeClient_def Let_def)

section \<open>Claims about the connect handler\<close>

text \<open>
  C1. The claim: a \<^verbatim>\<open>connect_document\<close> that fails at any step emits
  \<^verbatim>\<open>connect_document_error\<close> and leaves \<open>connectionsMap\<close>, \<open>roomMap\<close> and
  \<open>scopeMap\<close> without the client id of the failed request. The error is emitted on
  every failure and \<open>connectionsMap\<close> is never touched by one, as shown above. The two
  other maps are written before the protocol negotiation, the quota check and the
  registration, and nothing takes the entries out again: on a fresh socket, a request
  that offers only the range \<^verbatim>\<open>^9.0.0\<close> is answered with the error and leaves
  \<open>c1\<close> in \<open>roomMap\<close> and \<open>scopeMap\<close>.
\<close>

theorem connect_document_rejected_client_stays_in_maps:
  "roomMap newSocket ''c1'' = None \<and> scopeMap newSocket ''c1'' = None
   \<and> connect_document exampleConfiguration (exampleCollaborators ''c1'' 0 []) newSocket
        (exampleConnect\<lparr>msgVersions := Some [''^9.0.0'']\<rparr>)
      = (newSocket\<lparr>scopeMap := [''c1'' \<mapsto> [DocWrite]],
                    roomMap := [''c1'' \<mapsto> \<lparr>roomTenantId = ''t'', roomDocumentId = ''d''\<rparr>]\<rparr>,
         [SocketJoin ''t/d'', SocketJoin ''client#c1'',
          EmitConnectDocumentError
            (unsupportedProtocol (exampleCollaborators ''c1'' 0 []) [''^9.0.0''])])"
  by (simp add: connect_defs example_defs semver_defs)

text \<open>
  C2. The claim: negotiation returns the first element of the server list that intersects
  any client range, so that the client list \<^verbatim>\<open>["^0.1.0", "^0.4.0"]\<close> gets
  \<^verbatim>\<open>^0.4.0\<close>. The loops run the other way round: for that list the function
  returns \<^verbatim>\<open>^0.1.0\<close>, while the rule of the claim gives \<^verbatim>\<open>^0.4.0\<close>.
\<close>

theorem selectProtocolVersion_counterexample:
  "selectProtocolVersion semverIntersects [''^0.1.0'', ''^0.4.0''] = Some ''^0.1.0''
   \<and> specSelectProtocolVersion semverIntersects [''^0.1.0'', ''^0.4.0''] = Some ''^0.4.0''"
  by (simp add: specSelectProtocolVersion_def semver_defs)

text \<open>
  C2, amended. Whatever the range test is, negotiation takes the first client range, in
  the client's order, that intersects some server range, and returns the first server
  range, in the server's order, that intersects it; when no client range intersects a
  server range it returns nothing.
\<close>

theorem selectProtocolVersion_client_order:
  "selectProtocolVersion I offered =
     (case find (\<lambda>c. list_ex (\<lambda>p. I p c) protocolVersions) offered of
        None \<Rightarrow> None
      | Some c \<Rightarrow> find (\<lambda>p. I p c) protocolVersions)"
proof (induction offered)
  case Nil
  show ?case by simp
next
  case (Cons c rest)
  show ?case
  proof (cases "find (\<lambda>p. I p c) protocolVersions")
    case None
    then have "\<not> list_ex (\<lambda>p. I p c) protocolVersions" by (simp add: list_ex_find)
    with None Cons show ?thesis by (simp add: selectForConnectVersion_find)
  next
    case (Some p)
    then have "list_ex (\<lambda>p. I p c) protocolVersions" by (simp add: list_ex_find)
    with Some show ?thesis by (simp add: selectForConnectVersion_find)
  qed
qed

text \<open>
  C3. The claim: a request whose \<^verbatim>\<open>versions\<close> field is an empty list is treated as
  if it had offered \<^verbatim>\<open>["^0.1.0"]\<close> and is not rejected. An empty array is truthy,
  so the default is not taken: the request with the empty list is rejected with the 400
  error, while the same request offering \<^verbatim>\<open>["^0.1.0"]\<close> is accepted with version
  \<^verbatim>\<open>^0.1.0\<close>.
\<close>

theorem connect_document_empty_versions_counterexample:
  "connect_document exampleConfiguration (exampleCollaborators ''c1'' 0 []) newSocket
     (exampleConnect\<lparr>msgVersions := Some []\<rparr>)
   = (newSocket\<lparr>scopeMap := [''c1'' \<mapsto> [DocWrite]],
                 roomMap := [''c1'' \<mapsto> \<lparr>roomTenantId = ''t'', roomDocumentId = ''d''\<rparr>]\<rparr>,
      [SocketJoin ''t/d'', SocketJoin ''client#c1'',
       EmitConnectDocumentError
         (Rejection 400
            ''Unsupported client protocol. Server: ^0.4.0,^0.3.0,^0.2.0,^0.1.0. Client: []''
            None)])
   \<and> \<not> isl (snd (snd
         (connectDocument exampleConfiguration (exampleCollaborators ''c1'' 0 []) newSocket
            (exampleConnect\<lparr>msgVersions := Some [''^0.1.0'']\<rparr>))))
   \<and> version (connection (projr (snd (snd
         (connectDocument exampleConfiguration (exampleCollaborators ''c1'' 0 []) newSocket
            (exampleConnect\<lparr>msgVersions := Some [''^0.1.0'']\<rparr>)))))) = ''^0.1.0''"
  by (simp add: connect_defs example_defs semver_defs unsupportedProtocol_def
      stringifyRanges_def)

text \<open>
  C3, amended. A request without a \<^verbatim>\<open>versions\<close> field is treated exactly as one
  that offers \<^verbatim>\<open>["^0.1.0"]\<close>: the two runs of \<open>connectDocument\<close> are equal. When
  the range test says that \<^verbatim>\<open>^0.1.0\<close> intersects itself and none of the three
  other server ranges, the negotiation for such a request yields \<^verbatim>\<open>^0.1.0\<close> and
  an accepted request is answered with that version. A request whose \<^verbatim>\<open>versions\<close>
  field is an empty list is used as it is: it is never accepted, and once it has passed
  the steps before the negotiation it is rejected with the 400 unsupported-protocol
  error.
\<close>

theorem connectDocument_missing_versions:
  "connectDocument cfg col s (message\<lparr>msgVersions := None\<rparr>)
     = connectDocument cfg col s (message\<lparr>msgVersions := Some [''^0.1.0'']\<rparr>)
   \<and> (intersects col ''^0.1.0'' ''^0.1.0'' \<and> \<not> intersects col ''^0.4.0'' ''^0.1.0''
        \<and> \<not> intersects col ''^0.3.0'' ''^0.1.0'' \<and> \<not> intersects col ''^0.2.0'' ''^0.1.0''
      \<longrightarrow> selectProtocolVersion (intersects col)
            (offeredVersions (message\<lparr>msgVersions := None\<rparr>)) = Some ''^0.1.0''
          \<and> (\<forall>s' effs r.
                connectDocument cfg col s (message\<lparr>msgVersions := None\<rparr>) = (s', effs, Inr r)
                \<longrightarrow> version (connection r) = ''^0.1.0'' \<and> connectVersions r = [''^0.1.0'']))
   \<and> (\<forall>s' effs res.
         connectDocument cfg col s (message\<lparr>msgVersions := Some []\<rparr>) = (s', effs, res)
         \<longrightarrow> isl res)
   \<and> (\<forall>token tokenClaims.
         joinsRooms cfg col (message\<lparr>msgVersions := Some []\<rparr>) token tokenClaims
         \<longrightarrow> connect_document cfg col s (message\<lparr>msgVersions := Some []\<rparr>)
             = (stateAtNegotiation s col (message\<lparr>msgVersions := Some []\<rparr>) tokenClaims,
                callsAtNegotiation col tokenClaims
                  @ [EmitConnectDocumentError
                       (Rejection 400
                          (''Unsupported client protocol. Server: ^0.4.0,^0.3.0,^0.2.0,^0.1.0. Client: ''
                             @ jsonStringify col [])
                          None)]))"
proof -
  have eq: "connectDocument cfg col s (message\<lparr>msgVersions := None\<rparr>)
     = connectDocument cfg col s (message\<lparr>msgVersions := Some [''^0.1.0'']\<rparr>)"
    by (simp add: connectDocument_def composeClient_def effectiveScopes_def
        admitClient_mode [of "message\<lparr>msgVersions := None\<rparr>"
                             "message\<lparr>msgVersions := Some [''^0.1.0'']\<rparr>"]
        Let_def split: option.splits sum.splits)
  have sel: "selectProtocolVersion (intersects col)
               (offeredVersions (message\<lparr>msgVersions := None\<rparr>)) = Some ''^0.1.0''"
    if "intersects col ''^0.1.0'' ''^0.1.0'' \<and> \<not> intersects col ''^0.4.0'' ''^0.1.0''
        \<and> \<not> intersects col ''^0.3.0'' ''^0.1.0'' \<and> \<not> intersects col ''^0.2.0'' ''^0.1.0''"
    using that by (simp add: offeredVersions_def protocolVersions_def)
  have ver: "version (connection r) = ''^0.1.0'' \<and> connectVersions r = [''^0.1.0'']"
    if i: "intersects col ''^0.1.0'' ''^0.1.0'' \<and> \<not> intersects col ''^0.4.0'' ''^0.1.0''
        \<and> \<not> intersects col ''^0.3.0'' ''^0.1.0'' \<and> \<not> intersects col ''^0.2.0'' ''^0.1.0''"
      and c: "connectDocument cfg col s (message\<lparr>msgVersions := None\<rparr>) = (s', effs, Inr r)"
    for s' effs r
    using c
  proof (cases rule: connectDocument_cases)
    case (early e)
    then show ?thesis by simp
  next
    case (negotiation tokenClaims)
    then show ?thesis by simp
  next
    case (admit tokenClaims chosen token)
    from admit(3) sel [OF i] have "chosen = ''^0.1.0''" by (simp add: offeredVersions_def)
    with admitClient_result [OF admit(4)] show ?thesis by simp
  qed
  have never: "isl res"
    if c: "connectDocument cfg col s (message\<lparr>msgVersions := Some []\<rparr>) = (s', effs, res)"
    for s' effs res
    using c
  proof (cases rule: connectDocument_cases)
    case (early e)
    then show ?thesis by simp
  next
    case (negotiation tokenClaims)
    then show ?thesis by simp
  next
    case (admit tokenClaims chosen token)
    from admit(3) show ?thesis by simp
  qed
  have rejected: "connect_document cfg col s (message\<lparr>msgVersions := Some []\<rparr>)
             = (stateAtNegotiation s col (message\<lparr>msgVersions := Some []\<rparr>) tokenClaims,
                callsAtNegotiation col tokenClaims
                  @ [EmitConnectDocumentError
                       (Rejection 400
                          (''Unsupported client protocol. Server: ^0.4.0,^0.3.0,^0.2.0,^0.1.0. Client: ''
                             @ jsonStringify col [])
                          None)])"
    if j: "joinsRooms cfg col (message\<lparr>msgVersions := Some []\<rparr>) token tokenClaims"
    for token tokenClaims
  proof -
    have "connectDocument cfg col s (message\<lparr>msgVersions := Some []\<rparr>)
            = (stateAtNegotiation s col (message\<lparr>msgVersions := Some []\<rparr>) tokenClaims,
               callsAtNegotiation col tokenClaims, Inl (unsupportedProtocol col []))"
      using connectDocument_at_negotiation [OF j, of s] by (simp add: offeredVersions_def)
    then show ?thesis
      by (simp add: connect_document_def unsupportedProtocol_def protocolVersions_def)
  qed
  from eq sel ver never rejected show ?thesis by blast
qed

theorem connectDocument_missing_versions_witness:
  "intersects (exampleCollaborators ''c1'' 0 []) ''^0.1.0'' ''^0.1.0''
   \<and> \<not> intersects (exampleCollaborators ''c1'' 0 []) ''^0.4.0'' ''^0.1.0''
   \<and> \<not> intersects (exampleCollaborators ''c1'' 0 []) ''^0.3.0'' ''^0.1.0''
   \<and> \<not> intersects (exampleCollaborators ''c1'' 0 []) ''^0.2.0'' ''^0.1.0''
   \<and> \<not> isl (snd (snd
         (connectDocument exampleConfiguration (exampleCollaborators ''c1'' 0 []) newSocket
            (exampleConnect\<lparr>msgVersions := None\<rparr>))))
   \<and> version (connection (projr (snd (snd
         (connectDocument exampleConfiguration (exampleCollaborators ''c1'' 0 []) newSocket
            (exampleConnect\<lparr>msgVersions := None\<rparr>)))))) = ''^0.1.0''
   \<and> joinsRooms exampleConfiguration (exampleCollaborators ''c1'' 0 [])
        (exampleConnect\<lparr>msgVersions := Some []\<rparr>) ''token'' (exampleClaims ''token'')
   \<and> snd (connect_document exampleConfiguration (exampleCollaborators ''c1'' 0 []) newSocket
            (exampleConnect\<lparr>msgVersions := Some []\<rparr>))
      = [SocketJoin ''t/d'', SocketJoin ''client#c1'',
         EmitConnectDocumentError
           (Rejection 400
              ''Unsupported client protocol. Server: ^0.4.0,^0.3.0,^0.2.0,^0.1.0. Client: []''
              None)]"
proof -
  let ?cfg = exampleConfiguration
  let ?col = "exampleCollaborators ''c1'' 0 []"
  let ?run = "connectDocument ?cfg ?col newSocket (exampleConnect\<lparr>msgVersions := None\<rparr>)"
  have i: "intersects ?col ''^0.1.0'' ''^0.1.0'' \<and> \<not> intersects ?col ''^0.4.0'' ''^0.1.0''
        \<and> \<not> intersects ?col ''^0.3.0'' ''^0.1.0'' \<and> \<not> intersects ?col ''^0.2.0'' ''^0.1.0''"
    by (simp add: exampleCollaborators_def semver_defs)
  have ok: "\<not> isl (snd (snd ?run))"
    by (simp add: connect_defs example_defs semver_defs)
  then have run: "?run = (fst ?run, fst (snd ?run), Inr (projr (snd (snd ?run))))"
    by (cases "snd (snd ?run)") (simp_all add: prod_eq_iff)
  note amended = connectDocument_missing_versions [of ?cfg ?col newSocket exampleConnect]
  from amended i run have v: "version (connection (projr (snd (snd ?run)))) = ''^0.1.0''"
    by blast
  have j: "joinsRooms ?cfg ?col (exampleConnect\<lparr>msgVersions := Some []\<rparr>) ''token''
             (exampleClaims ''token'')"
    by (simp add: joinsRooms_def checkThrottle_def example_defs)
  have calls: "callsAtNegotiation ?col (exampleClaims ''token'')
                 = [SocketJoin ''t/d'', SocketJoin ''client#c1'']"
    by (simp add: callsAtNegotiation_def getRoomId_def example_defs)
  have printed: "jsonStringify ?col [] = ''[]''"
    by (simp add: stringifyRanges_def example_defs)
  from amended j have "snd (connect_document ?cfg ?col newSocket
                          (exampleConnect\<lparr>msgVersions := Some []\<rparr>))
      = callsAtNegotiation ?col (exampleClaims ''token'')
          @ [EmitConnectDocumentError
               (Rejection 400
                  (''Unsupported client protocol. Server: ^0.4.0,^0.3.0,^0.2.0,^0.1.0. Client: ''
                     @ jsonStringify ?col [])
                  None)]"
    by simp
  with calls printed have e: "snd (connect_document ?cfg ?col newSocket
                          (exampleConnect\<lparr>msgVersions := Some []\<rparr>))
      = [SocketJoin ''t/d'', SocketJoin ''client#c1'',
         EmitConnectDocumentError
           (Rejection 400
              ''Unsupported client protocol. Server: ^0.4.0,^0.3.0,^0.2.0,^0.1.0. Client: []''
              None)]"
    by simp
  from i ok v j e show ?thesis by blast
qed

text \<open>
  C4. The claim: with a cap of two clients per document and two clients already in the
  registry, a third connect is rejected with code 429. The quota test asks whether the
  registry's count is above the cap, and two is not above two: the third client \<open>c3\<close>
  is registered, attached to the orderer and answered with
  \<^verbatim>\<open>connect_document_success\<close>.
\<close>

theorem connect_document_admits_client_at_quota:
  "maxNumberOfClientsPerDocument quotaConfiguration = 2
   \<and> length [exampleSignalClient ''c1'', exampleSignalClient ''c2''] = 2
   \<and> connect_document quotaConfiguration
        (exampleCollaborators ''c3'' 0 [exampleSignalClient ''c1'', exampleSignalClient ''c2''])
        newSocket exampleConnect
      = (newSocket\<lparr>connectionsMap := [''c3'' \<mapsto> exampleConnection],
                    scopeMap := [''c3'' \<mapsto> [DocWrite]],
                    roomMap := [''c3'' \<mapsto> \<lparr>roomTenantId = ''t'', roomDocumentId = ''d''\<rparr>]\<rparr>,
         [SocketJoin ''t/d'', SocketJoin ''client#c3'',
          AddClient ''t'' ''d'' ''c3''
            \<lparr>clientDetails = None, clientUser = Some ''u'', clientScopes = Some [DocWrite],
             clientTimestamp = Some 0\<rparr>,
          OrdererConnect ''c3''
            \<lparr>clientDetails = None, clientUser = Some ''u'', clientScopes = Some [DocWrite],
             clientTimestamp = Some 0\<rparr>,
          ConnectionConnect ''c3'',
          EmitConnectDocumentSuccess
            \<lparr>claims = exampleClaims ''token'', clientId = ''c3'', existing = True,
             maxMessageSize = 16384, mode = ''write'',
             serviceConfiguration = exampleServiceConfiguration,
             initialClients = [exampleSignalClient ''c1'', exampleSignalClient ''c2''],
             initialMessages = [], initialSignals = [],
             supportedVersions = protocolVersions, version = ''^0.4.0'', timestamp = 0\<rparr>,
          EmitRoomJoin ''t/d'' ''c3''
            \<lparr>clientDetails = None, clientUser = Some ''u'', clientScopes = Some [DocWrite],
             clientTimestamp = Some 0\<rparr>])"
  by (simp add: connect_defs example_defs semver_defs)

text \<open>
  C4, amended. A connect that has come as far as the quota check is rejected with code
  429, the message "Too Many Clients Connected to Document" and a retry delay of 300
  when the registry reports more clients than the cap, so with a cap of two when it
  reports three or more. When the registry reports at most as many clients as the cap,
  two with a cap of two, the quota check lets the request pass and the new client is
  handed to the registry.
\<close>

theorem connect_document_quota:
  assumes "joinsRooms cfg col message token tokenClaims"
    and "selectProtocolVersion (intersects col) (offeredVersions message) = Some chosen"
    and "getClients col (claimsTenantId tokenClaims) (claimsDocumentId tokenClaims)
           = Some clients"
  shows "(maxNumberOfClientsPerDocument cfg < int (length clients)
           \<longrightarrow> connect_document cfg col s message
               = (stateAtNegotiation s col message tokenClaims,
                  callsAtNegotiation col tokenClaims
                    @ [EmitConnectDocumentError
                         (Rejection 429 ''Too Many Clients Connected to Document''
                            (Some 300))]))
       \<and> (int (length clients) \<le> maxNumberOfClientsPerDocument cfg
           \<longrightarrow> AddClient (claimsTenantId tokenClaims) (claimsDocumentId tokenClaims)
                 (generateClientId col) (composeClient message tokenClaims (dateNow col))
               \<in> set (snd (connect_document cfg col s message)))"
proof -
  let ?s1 = "stateAtNegotiation s col message tokenClaims"
  let ?joins = "callsAtNegotiation col tokenClaims"
  let ?client = "composeClient message tokenClaims (dateNow col)"
  let ?add = "AddClient (claimsTenantId tokenClaims) (claimsDocumentId tokenClaims)
                (generateClientId col) ?client"
  have run: "connectDocument cfg col s message
      = admitClient cfg col ?s1 ?joins message tokenClaims (generateClientId col) ?client
          (effectiveScopes message tokenClaims) (offeredVersions message) chosen"
    using connectDocument_at_negotiation [OF assms(1), of s] assms(2) by simp
  have over: "connect_document cfg col s message
               = (?s1, ?joins @ [EmitConnectDocumentError
                         (Rejection 429 ''Too Many Clients Connected to Document''
                            (Some 300))])"
    if "maxNumberOfClientsPerDocument cfg < int (length clients)"
    using that run assms(3) by (simp add: connect_document_def admitClient_def)
  have within: "?add \<in> set (snd (connect_document cfg col s message))"
    if q: "int (length clients) \<le> maxNumberOfClientsPerDocument cfg"
  proof -
    obtain s' effs res where r: "connectDocument cfg col s message = (s', effs, res)"
      by (cases "connectDocument cfg col s message")
    with run have a: "admitClient cfg col ?s1 ?joins message tokenClaims
        (generateClientId col) ?client (effectiveScopes message tokenClaims)
        (offeredVersions message) chosen = (s', effs, res)" by simp
    have "?add \<in> set effs"
      using admitClient_within_cap [OF a assms(3) q] .
    with r connect_document_keeps_calls [of cfg col s message] show ?thesis by auto
  qed
  from over within show ?thesis by blast
qed

theorem connect_document_quota_witness:
  "joinsRooms quotaConfiguration
     (exampleCollaborators ''c4'' 0
        [exampleSignalClient ''c1'', exampleSignalClient ''c2'', exampleSignalClient ''c3''])
     exampleConnect ''token'' (exampleClaims ''token'')
   \<and> maxNumberOfClientsPerDocument quotaConfiguration
      < int (length [exampleSignalClient ''c1'', exampleSignalClient ''c2'',
                     exampleSignalClient ''c3''])
   \<and> snd (connect_document quotaConfiguration
            (exampleCollaborators ''c4'' 0
               [exampleSignalClient ''c1'', exampleSignalClient ''c2'',
                exampleSignalClient ''c3''])
            newSocket exampleConnect)
      = [SocketJoin ''t/d'', SocketJoin ''client#c4'',
         EmitConnectDocumentError
           (Rejection 429 ''Too Many Clients Connected to Document'' (Some 300))]"
proof -
  let ?clients = "[exampleSignalClient ''c1'', exampleSignalClient ''c2'',
                   exampleSignalClient ''c3'']"
  let ?col = "exampleCollaborators ''c4'' 0 ?clients"
  have j: "joinsRooms quotaConfiguration ?col exampleConnect ''token''
             (exampleClaims ''token'')"
    by (simp add: joinsRooms_def checkThrottle_def example_defs)
  have v: "selectProtocolVersion (intersects ?col) (offeredVersions exampleConnect)
             = Some ''^0.4.0''"
    by (simp add: offeredVersions_def example_defs semver_defs)
  have g: "getClients ?col (claimsTenantId (exampleClaims ''token''))
             (claimsDocumentId (exampleClaims ''token'')) = Some ?clients"
    by (simp add: example_defs)
  have over: "maxNumberOfClientsPerDocument quotaConfiguration < int (length ?clients)"
    by (simp add: example_defs)
  have calls: "callsAtNegotiation ?col (exampleClaims ''token'')
                 = [SocketJoin ''t/d'', SocketJoin ''client#c4'']"
    by (simp add: callsAtNegotiation_def getRoomId_def example_defs)
  from connect_document_quota [OF j v g, of newSocket] over calls
  have "snd (connect_document quotaConfiguration ?col newSocket exampleConnect)
      = [SocketJoin ''t/d'', SocketJoin ''client#c4'',
         EmitConnectDocumentError
           (Rejection 429 ''Too Many Clients Connected to Document'' (Some 300))]"
    by simp
  with j over show ?thesis by blast
qed

text \<open>
  C6. For an accepted connect whose client descriptor does not say
  \<^verbatim>\<open>details.type = "summarizer"\<close>, the scopes stored in \<open>scopeMap\<close> for the new
  client id hold no \<open>SummaryWrite\<close>; the client is registered with the registry, and
  every descriptor handed to the registry carries scopes without \<open>SummaryWrite\<close>,
  whatever scopes the token claims carry.
\<close>

theorem connectDocument_scope_safety:
  assumes ok: "connectDocument cfg col s message = (s', effs, Inr r)"
    and type: "requestedClientType message \<noteq> Some summarizerClientType"
  shows "(\<exists>scopes. scopeMap s' (clientId (connection r)) = Some scopes
            \<and> SummaryWrite \<notin> set scopes)
       \<and> (\<exists>t d cl. AddClient t d (clientId (connection r)) cl \<in> set effs)
       \<and> (\<forall>t d c cl. AddClient t d c cl \<in> set effs \<longrightarrow>
             (\<exists>scopes. clientScopes cl = Some scopes \<and> SummaryWrite \<notin> set scopes))"
  using ok
proof (cases rule: connectDocument_cases)
  case (early e)
  then show ?thesis by simp
next
  case (negotiation tokenClaims)
  then show ?thesis by simp
next
  case (admit tokenClaims chosen token)
  note res = admitClient_result [OF admit(4)]
  from res have cid: "clientId (connection r) = generateClientId col" by simp
  from res
  have "scopeMap s' (generateClientId col) = Some (effectiveScopes message tokenClaims)"
    by simp
  with cid effectiveScopes_no_summary [OF type, of tokenClaims]
  have a: "\<exists>scopes. scopeMap s' (clientId (connection r)) = Some scopes
             \<and> SummaryWrite \<notin> set scopes"
    by simp
  from admitClient_registers [OF admit(4)] cid
  have b: "\<exists>t d cl. AddClient t d (clientId (connection r)) cl \<in> set effs" by auto
  have c: "\<exists>scopes. clientScopes cl = Some scopes \<and> SummaryWrite \<notin> set scopes"
    if "AddClient t d c cl \<in> set effs" for t d c cl
  proof -
    from admitClient_addClient [OF admit(4) that]
    have "cl = composeClient message tokenClaims (dateNow col)" by auto
    with effectiveScopes_no_summary [OF type, of tokenClaims] show ?thesis
      by (simp add: composeClient_scopes)
  qed
  from a b c show ?thesis by blast
qed

theorem connectDocument_scope_safety_witness:
  "requestedClientType containerConnect \<noteq> Some summarizerClientType
   \<and> SummaryWrite \<in> set (claimsScopes (exampleClaims ''token''))
   \<and> \<not> isl (snd (snd (connectDocument exampleConfiguration
                         (exampleCollaborators ''c1'' 0 []) newSocket containerConnect)))
   \<and> scopeMap (fst (connectDocument exampleConfiguration
                      (exampleCollaborators ''c1'' 0 []) newSocket containerConnect)) ''c1''
      = Some [DocWrite]
   \<and> SummaryWrite \<notin> set [DocWrite]"
proof -
  let ?run = "connectDocument exampleConfiguration (exampleCollaborators ''c1'' 0 []) newSocket
                containerConnect"
  have type: "requestedClientType containerConnect \<noteq> Some summarizerClientType"
    by (simp add: requestedClientType_def example_defs summarizerClientType_def)
  have ok: "\<not> isl (snd (snd ?run))"
    by (simp add: connect_defs example_defs semver_defs)
  then have run: "?run = (fst ?run, fst (snd ?run), Inr (projr (snd (snd ?run))))"
    by (cases "snd (snd ?run)") (simp_all add: prod_eq_iff)
  have cid: "clientId (connection (projr (snd (snd ?run)))) = ''c1''"
    by (simp add: connect_defs example_defs semver_defs)
  have stored: "scopeMap (fst ?run) ''c1'' = Some [DocWrite]"
    by (simp add: connect_defs example_defs semver_defs)
  from connectDocument_scope_safety [OF run type] cid stored
  have "SummaryWrite \<notin> set [DocWrite]" by auto
  moreover have "SummaryWrite \<in> set (claimsScopes (exampleClaims ''token''))"
    by (simp add: exampleClaims_def)
  ultimately show ?thesis using type ok stored by blast
qed

text \<open>
  C9. The claim: the expiration timer is always undefined or armed for the soonest token
  expiration among the clients of the socket, so that a second connect with a later
  expiry leaves the first deadline armed. Arming clears the timer and sets the new one:
  after \<open>c1\<close> (expiry at 1001000 ms) and then \<open>c2\<close> (expiry at 1005000 ms) have
  connected as writers on one socket, the timer is armed for 1005000 ms, not for
  1001000 ms.
\<close>

theorem expirationTimer_counterexample:
  "expirationTimer afterFirstConnect = Some 1001000
   \<and> expirationTimer afterSecondConnect = Some 1005000
   \<and> connectionsMap afterSecondConnect ''c1'' = Some exampleConnection
   \<and> connectionsMap afterSecondConnect ''c2'' = Some exampleConnection
   \<and> roomMap afterSecondConnect ''c1'' = Some exampleRoom
   \<and> roomMap afterSecondConnect ''c2'' = Some exampleRoom"
  by (simp add: afterSecondConnect_def afterFirstConnect_def connect_defs example_defs
      semver_defs)

text \<open>
  C9, amended. A connect either leaves the timer as it was or arms it for the token of
  that connect, whatever was armed before. It arms it exactly when token expiry is
  enabled, the request has come as far as the registration of the client, and the token
  library has reported a remaining lifetime; the timer then fires at the clock reading
  plus that lifetime, or plus 1 ms when the lifetime is below 1 ms or above 2147483647
  ms, and this holds whether the connect is accepted afterwards or rejected at the
  orderer. So an accepted connect with token expiry enabled leaves the timer armed for
  its own token, and a connect with token expiry disabled leaves the timer as it was.
\<close>

theorem connectDocument_arms_latest_expiration:
  assumes run: "connectDocument cfg col s message = (s', effs, res)"
  shows "(expirationTimer s' = expirationTimer s
          \<or> (\<exists>token tokenClaims ms.
                registersClient cfg col message token tokenClaims
                \<and> isTokenExpiryEnabled cfg
                \<and> validateTokenClaimsExpiration col tokenClaims (maxTokenLifetimeSec cfg)
                    = Inr ms
                \<and> expirationTimer s' = Some (dateNow col + timeoutDelay ms)))
       \<and> (\<forall>token tokenClaims ms.
             registersClient cfg col message token tokenClaims
             \<longrightarrow> isTokenExpiryEnabled cfg
             \<longrightarrow> validateTokenClaimsExpiration col tokenClaims (maxTokenLifetimeSec cfg)
                   = Inr ms
             \<longrightarrow> expirationTimer s' = Some (dateNow col + timeoutDelay ms))
       \<and> (\<forall>r. res = Inr r \<longrightarrow> isTokenExpiryEnabled cfg
             \<longrightarrow> (\<exists>ms. validateTokenClaimsExpiration col (claims (connection r))
                          (maxTokenLifetimeSec cfg) = Inr ms
                   \<and> expirationTimer s' = Some (dateNow col + timeoutDelay ms)))
       \<and> (\<not> isTokenExpiryEnabled cfg \<longrightarrow> expirationTimer s' = expirationTimer s)"
proof -
  have a: "expirationTimer s' = expirationTimer s
          \<or> (\<exists>token tokenClaims ms.
                registersClient cfg col message token tokenClaims
                \<and> isTokenExpiryEnabled cfg
                \<and> validateTokenClaimsExpiration col tokenClaims (maxTokenLifetimeSec cfg)
                    = Inr ms
                \<and> expirationTimer s' = Some (dateNow col + timeoutDelay ms))"
    using run
  proof (cases rule: connectDocument_cases)
    case (early e)
    then show ?thesis by simp
  next
    case (negotiation tokenClaims)
    then show ?thesis by simp
  next
    case (admit tokenClaims chosen token)
    from admit(3) have v: "selectProtocolVersion (intersects col) (offeredVersions message)
                             \<noteq> None"
      by (simp add: offeredVersions_def)
    from admitClient_timer_any [OF admit(4)] show ?thesis
    proof
      assume "expirationTimer s' = expirationTimer
                (s\<lparr>scopeMap := (scopeMap s)(generateClientId col \<mapsto>
                       effectiveScopes message tokenClaims),
                   roomMap := (roomMap s)(generateClientId col \<mapsto>
                     \<lparr>roomTenantId = claimsTenantId tokenClaims,
                      roomDocumentId = claimsDocumentId tokenClaims\<rparr>)\<rparr>)"
      then show ?thesis by simp
    next
      assume armed: "isTokenExpiryEnabled cfg
          \<and> (\<exists>clients. getClients col (claimsTenantId tokenClaims)
                          (claimsDocumentId tokenClaims) = Some clients
                \<and> int (length clients) \<le> maxNumberOfClientsPerDocument cfg)
          \<and> addClient col (claimsTenantId tokenClaims) (claimsDocumentId tokenClaims)
               (generateClientId col) (composeClient message tokenClaims (dateNow col))
          \<and> (\<exists>ms. validateTokenClaimsExpiration col tokenClaims (maxTokenLifetimeSec cfg)
                     = Inr ms
                \<and> expirationTimer s' = Some (dateNow col + timeoutDelay ms))"
      with admit(5) v have "registersClient cfg col message token tokenClaims"
        by (auto simp: registersClient_def)
      with armed show ?thesis by blast
    qed
  qed
  have b: "expirationTimer s' = Some (dateNow col + timeoutDelay ms)"
    if reg: "registersClient cfg col message token tokenClaims"
      and en: "isTokenExpiryEnabled cfg"
      and life: "validateTokenClaimsExpiration col tokenClaims (maxTokenLifetimeSec cfg)
                   = Inr ms"
    for token tokenClaims ms
  proof -
    from reg have j: "joinsRooms cfg col message token tokenClaims"
      by (simp add: registersClient_def)
    from reg obtain chosen where
      c: "selectProtocolVersion (intersects col) (offeredVersions message) = Some chosen"
      by (auto simp: registersClient_def)
    from reg obtain clients where
      g: "getClients col (claimsTenantId tokenClaims) (claimsDocumentId tokenClaims)
            = Some clients"
      and q: "int (length clients) \<le> maxNumberOfClientsPerDocument cfg"
      by (auto simp: registersClient_def split: option.splits)
    from reg have ad: "addClient col (claimsTenantId tokenClaims)
        (claimsDocumentId tokenClaims) (generateClientId col)
        (composeClient message tokenClaims (dateNow col))"
      by (simp add: registersClient_def)
    let ?effs = "callsAtNegotiation col tokenClaims
                   @ [AddClient (claimsTenantId tokenClaims) (claimsDocumentId tokenClaims)
                        (generateClientId col)
                        (composeClient message tokenClaims (dateNow col))]"
    from run connectDocument_at_negotiation [OF j, of s] c g q ad en life
    have "attachOrderer cfg col
            (setExpirationTimer (dateNow col) ms (stateAtNegotiation s col message tokenClaims))
            ?effs message tokenClaims (generateClientId col)
            (composeClient message tokenClaims (dateNow col))
            (effectiveScopes message tokenClaims) (offeredVersions message) chosen clients
          = (s', effs, res)"
      by (simp add: admitClient_def Let_def)
    from attachOrderer_result [OF this] show ?thesis
      by (simp add: setExpirationTimer_fields)
  qed
  have c: "\<exists>ms. validateTokenClaimsExpiration col (claims (connection r))
                    (maxTokenLifetimeSec cfg) = Inr ms
               \<and> expirationTimer s' = Some (dateNow col + timeoutDelay ms)"
    if "res = Inr r" and en: "isTokenExpiryEnabled cfg" for r
    using run
  proof (cases rule: connectDocument_cases)
    case (early e)
    with that show ?thesis by simp
  next
    case (negotiation tokenClaims)
    with that show ?thesis by simp
  next
    case (admit tokenClaims chosen token)
    from admit(4) that have ok: "admitClient cfg col
             (s\<lparr>scopeMap := (scopeMap s)(generateClientId col \<mapsto>
                   effectiveScopes message tokenClaims),
               roomMap := (roomMap s)(generateClientId col \<mapsto>
                 \<lparr>roomTenantId = claimsTenantId tokenClaims,
                  roomDocumentId = claimsDocumentId tokenClaims\<rparr>)\<rparr>)
             [SocketJoin (getRoomId \<lparr>roomTenantId = claimsTenantId tokenClaims,
                                     roomDocumentId = claimsDocumentId tokenClaims\<rparr>),
              SocketJoin (''client#'' @ generateClientId col)]
             message tokenClaims (generateClientId col)
             (composeClient message tokenClaims (dateNow col))
             (effectiveScopes message tokenClaims)
             (case msgVersions message of Some vs \<Rightarrow> vs | None \<Rightarrow> [''^0.1.0''])
             chosen = (s', effs, Inr r)" by simp
    from admitClient_result [OF ok] have "claims (connection r) = tokenClaims" by simp
    with admitClient_timer [OF ok] en show ?thesis by simp
  qed
  have d: "expirationTimer s' = expirationTimer s" if "\<not> isTokenExpiryEnabled cfg"
    using a that by blast
  from a b c d show ?thesis by blast
qed

theorem connectDocument_arms_latest_expiration_witness:
  "expirationTimer afterFirstConnect = Some 1001000
   \<and> registersClient expiryConfiguration (orderlessCollaborators ''c2'' 1000010)
        (exampleConnect\<lparr>msgToken := Some ''late''\<rparr>) ''late'' (expiringClaims ''late'')
   \<and> isTokenExpiryEnabled expiryConfiguration
   \<and> isl (snd (snd (connectDocument expiryConfiguration
                       (orderlessCollaborators ''c2'' 1000010) afterFirstConnect
                       (exampleConnect\<lparr>msgToken := Some ''late''\<rparr>))))
   \<and> expirationTimer (fst (connectDocument expiryConfiguration
                             (orderlessCollaborators ''c2'' 1000010) afterFirstConnect
                             (exampleConnect\<lparr>msgToken := Some ''late''\<rparr>)))
      = Some (1000010 + 4990)"
proof -
  let ?col = "orderlessCollaborators ''c2'' 1000010"
  let ?message = "exampleConnect\<lparr>msgToken := Some ''late''\<rparr>"
  let ?run = "connectDocument expiryConfiguration ?col afterFirstConnect ?message"
  have first: "expirationTimer afterFirstConnect = Some 1001000"
    by (simp add: afterFirstConnect_def connect_defs example_defs semver_defs)
  have reg: "registersClient expiryConfiguration ?col ?message ''late''
               (expiringClaims ''late'')"
    by (simp add: registersClient_def joinsRooms_def offeredVersions_def checkThrottle_def
        example_defs semver_defs)
  have enabled: "isTokenExpiryEnabled expiryConfiguration"
    by (simp add: example_defs)
  have life: "validateTokenClaimsExpiration ?col (expiringClaims ''late'')
                (maxTokenLifetimeSec expiryConfiguration) = Inr 4990"
    by (simp add: example_defs)
  have now: "dateNow ?col = 1000010"
    by (simp add: example_defs)
  have delay: "timeoutDelay 4990 = 4990"
    by (simp add: timeoutDelay_def)
  have rejected: "isl (snd (snd ?run))"
    by (simp add: afterFirstConnect_def connect_defs example_defs semver_defs)
  have run: "?run = (fst ?run, fst (snd ?run), snd (snd ?run))"
    by simp
  from connectDocument_arms_latest_expiration [OF run] reg enabled life now delay
  have "expirationTimer (fst ?run) = Some (1000010 + 4990)"
    by simp
  with first reg enabled rejected show ?thesis by blast
qed

section \<open>The sanitizer and the batch loop\<close>

lemma getField_setField:
  "getField (setField k v obj) k' = (if k' = k then v else getField obj k')"
  by (induction obj) (auto simp: getField_def)

text \<open>The sampling branch changes the \<open>operation\<close> field of the message and no other.\<close>

lemma sampleTrace_other_fields:
  assumes "sampleTrace rnd now message = Inr message'" and "k \<noteq> ''operation''"
  shows "getField message' k = getField message k"
  using assms
  by (auto simp: sampleTrace_def Let_def getField_setField split: if_splits jsval.splits)

lemma sampleTrace_no_draw: "rnd \<noteq> 0 \<Longrightarrow> sampleTrace rnd now message = Inr message"
  by (simp add: sampleTrace_def Let_def)

lemma sampleTrace_pushable:
  "tracesPushable message \<Longrightarrow> \<exists>message'. sampleTrace rnd now message = Inr message'"
  by (cases "getField message ''operation''")
     (auto simp: sampleTrace_def tracesPushable_def Let_def split: jsval.splits)

lemma sanitizeMessage_projection:
  assumes "sanitizeMessage rnd now message = Inr (message', sanitized)"
  shows "sanitized = whitelistProjection message"
proof -
  from assms obtain m where m: "sampleTrace rnd now message = Inr m"
    and s: "sanitized =
               [(''clientSequenceNumber'', getField m ''clientSequenceNumber''),
                (''contents'', getField m ''contents''),
                (''metadata'', getField m ''metadata''),
                (''referenceSequenceNumber'', getField m ''referenceSequenceNumber''),
                (''traces'', getField m ''traces''),
                (''type'', getField m ''type'')]"
    by (auto simp: sanitizeMessage_def split: sum.splits)
  have "\<And>k. k \<noteq> ''operation'' \<Longrightarrow> getField m k = getField message k"
    using sampleTrace_other_fields [OF m] by simp
  then show ?thesis
    by (simp add: s whitelistProjection_def sanitizedFieldNames_def)
qed

lemma sanitizeAll_projection:
  "sanitizeAll draws j messages = Inr sanitized \<Longrightarrow>
   sanitized = map whitelistProjection messages"
proof (induction messages arbitrary: j sanitized)
  case Nil
  then show ?case by simp
next
  case (Cons m ms)
  then show ?case
    by (auto split: sum.splits dest: sanitizeMessage_projection)
qed

lemma whitelistProjection_keys: "map fst (whitelistProjection message) = sanitizedFieldNames"
  by (simp add: whitelistProjection_def comp_def)

lemma whitelistProjection_lookup:
  "map_of (whitelistProjection message) k =
     (if k \<in> set sanitizedFieldNames then Some (getField message k) else None)"
  by (simp add: whitelistProjection_def sanitizedFieldNames_def)


lemma orderCalls_append: "orderCalls (xs @ ys) = orderCalls xs @ orderCalls ys"
  by (induction xs rule: orderCalls.induct) auto

lemma nackCalls_append: "nackCalls (xs @ ys) = nackCalls xs @ nackCalls ys"
  by (induction xs rule: nackCalls.induct) auto

text \<open>The filter keeps what is not a round trip and calls nothing but the metric sink.\<close>

lemma filterRoundTrip_kept:
  "snd (filterRoundTrip messages) = filter (\<lambda>m. \<not> isRoundTrip m) messages"
  by (induction messages) (auto simp: isRoundTrip_def split: prod.splits)


lemma filterRoundTrip_orders: "orderCalls (fst (filterRoundTrip messages)) = []"
  by (induction messages) (auto simp: orderCalls_append split: prod.splits)

lemma filterRoundTrip_nacks: "nackCalls (fst (filterRoundTrip messages)) = []"
  by (induction messages) (auto simp: nackCalls_append split: prod.splits)

lemma filterRoundTrip_no_order: "Order c ms \<notin> set (fst (filterRoundTrip messages))"
  by (induction messages) (auto split: prod.splits)

lemma processBatch_orders:
  assumes "processBatch draws conn batch = (effs, None)"
  shows "orderCalls effs =
           (if batchSurvivors batch \<noteq> [] then [map whitelistProjection (batchSurvivors batch)]
            else [])"
proof -
  obtain metrics kept where f: "filterRoundTrip (batchMessages batch) = (metrics, kept)"
    by (cases "filterRoundTrip (batchMessages batch)")
  have kept: "kept = batchSurvivors batch"
    using filterRoundTrip_kept [of "batchMessages batch"] f by (simp add: batchSurvivors_def)
  have m: "orderCalls metrics = []"
    using filterRoundTrip_orders [of "batchMessages batch"] f by simp
  from assms f obtain sanitized where s: "sanitizeAll draws 0 kept = Inr sanitized"
    and e: "effs = metrics @ (if length sanitized > 0 then [Order conn sanitized] else [])"
    by (auto simp: processBatch_def split: sum.splits)
  have "sanitized = map whitelistProjection kept"
    using sanitizeAll_projection [OF s] .
  then show ?thesis
    using e m kept by (simp add: orderCalls_append)
qed


lemma processBatch_nacks: "nackCalls (fst (processBatch draws conn batch)) = []"
proof -
  obtain metrics kept where f: "filterRoundTrip (batchMessages batch) = (metrics, kept)"
    by (cases "filterRoundTrip (batchMessages batch)")
  with filterRoundTrip_nacks [of "batchMessages batch"] show ?thesis
    by (simp add: processBatch_def nackCalls_append split: sum.splits)
qed

lemma processBatch_order:
  assumes "Order c forwarded \<in> set (fst (processBatch draws conn batch))"
  shows "c = conn \<and> forwarded = map whitelistProjection (batchSurvivors batch)"
proof -
  obtain metrics kept where f: "filterRoundTrip (batchMessages batch) = (metrics, kept)"
    by (cases "filterRoundTrip (batchMessages batch)")
  have kept: "kept = batchSurvivors batch"
    using filterRoundTrip_kept [of "batchMessages batch"] f by (simp add: batchSurvivors_def)
  have m: "Order c forwarded \<notin> set metrics"
    using filterRoundTrip_no_order [of c forwarded "batchMessages batch"] f by simp
  show ?thesis
  proof (cases "sanitizeAll draws 0 kept")
    case (Inl e)
    with assms f m show ?thesis by (simp add: processBatch_def)
  next
    case (Inr sanitized)
    with assms f m have "c = conn \<and> forwarded = sanitized"
      by (auto simp: processBatch_def split: if_splits)
    with sanitizeAll_projection [OF Inr] kept show ?thesis by simp
  qed
qed


lemma processBatches_orders:
  "processBatches draws i conn batches = (effs, None) \<Longrightarrow>
   orderCalls effs = expectedOrders batches"
proof (induction batches arbitrary: i effs)
  case Nil
  then show ?case by (simp add: expectedOrders_def)
next
  case (Cons b bs)
  from Cons.prems obtain e1 e2 where b: "processBatch (draws i) conn b = (e1, None)"
    and bs: "processBatches draws (Suc i) conn bs = (e2, None)" and effs: "effs = e1 @ e2"
    by (auto split: prod.splits option.splits)
  have "orderCalls e2 = expectedOrders bs" using Cons.IH [OF bs] .
  then show ?case
    using processBatch_orders [OF b] effs
    by (simp add: orderCalls_append expectedOrders_def)
qed



lemma processBatches_nacks: "nackCalls (fst (processBatches draws i conn batches)) = []"
proof (induction batches arbitrary: i)
  case Nil
  then show ?case by simp
next
  case (Cons b bs)
  obtain e1 r1 where b: "processBatch (draws i) conn b = (e1, r1)"
    by (cases "processBatch (draws i) conn b")
  obtain e2 r2 where bs: "processBatches draws (Suc i) conn bs = (e2, r2)"
    by (cases "processBatches draws (Suc i) conn bs")
  from processBatch_nacks [of "draws i" conn b] b Cons.IH [of "Suc i"] bs show ?case
    by (cases r1) (simp_all add: nackCalls_append)
qed

lemma processBatches_order:
  "Order c forwarded \<in> set (fst (processBatches draws i conn batches)) \<Longrightarrow>
   c = conn
   \<and> (\<exists>batch \<in> set batches. forwarded = map whitelistProjection (batchSurvivors batch))"
proof (induction batches arbitrary: i)
  case Nil
  then show ?case by simp
next
  case (Cons b bs)
  obtain e1 r1 where b: "processBatch (draws i) conn b = (e1, r1)"
    by (cases "processBatch (draws i) conn b")
  obtain e2 r2 where bs: "processBatches draws (Suc i) conn bs = (e2, r2)"
    by (cases "processBatches draws (Suc i) conn bs")
  from Cons.prems b bs have "Order c forwarded \<in> set e1 \<or> Order c forwarded \<in> set e2"
    by (cases r1) auto
  then show ?case
  proof
    assume "Order c forwarded \<in> set e1"
    with processBatch_order [of c forwarded "draws i" conn b] b show ?thesis by simp
  next
    assume "Order c forwarded \<in> set e2"
    with Cons.IH [of "Suc i"] bs show ?thesis by simp
  qed
qed

text \<open>
  A call of \<^verbatim>\<open>connection.order\<close> made by \<open>submitOp\<close> is made on the connection
  stored for the client id, after the throttle let the request pass, with the projections
  of the messages of one batch that are not round trips.
\<close>

lemma submitOp_order:
  assumes "Order c forwarded \<in> set (fst (submitOp cfg draws s cid batches))"
  shows "connectionsMap s cid = Some c
       \<and> checkThrottle (submitOpThrottler cfg) (getSubmitOpThrottleId cid (ordererTenantId c))
            (ordererTenantId c) = None
       \<and> (\<exists>batch \<in> set batches. forwarded = map whitelistProjection (batchSurvivors batch))"
proof (cases "connectionsMap s cid")
  case None
  with assms show ?thesis by (simp add: submitOp_def Let_def)
next
  case (Some conn)
  show ?thesis
  proof (cases "checkThrottle (submitOpThrottler cfg)
                  (getSubmitOpThrottleId cid (ordererTenantId conn)) (ordererTenantId conn)")
    case None
    with Some assms have "Order c forwarded \<in> set (fst (processBatches draws 0 conn batches))"
      by (simp add: submitOp_def)
    from processBatches_order [OF this] Some None show ?thesis by simp
  next
    case (Some e)
    with \<open>connectionsMap s cid = Some conn\<close> assms show ?thesis by (simp add: submitOp_def)
  qed
qed

text \<open>
  Messages whose sampling branch cannot raise are sanitized to their projections whatever
  the draws, so a request made of them makes the same calls under any draws.
\<close>

lemma sanitizeMessage_pushable:
  assumes "tracesPushable message"
  shows "\<exists>m. sanitizeMessage rnd now message = Inr (m, whitelistProjection message)"
proof -
  from sampleTrace_pushable [OF assms, of rnd now] obtain m where
    "sampleTrace rnd now message = Inr m" by blast
  then obtain sanitized where s: "sanitizeMessage rnd now message = Inr (m, sanitized)"
    by (simp add: sanitizeMessage_def)
  from sanitizeMessage_projection [OF s] s show ?thesis by blast
qed

lemma sanitizeAll_pushable:
  "list_all tracesPushable messages \<Longrightarrow>
   sanitizeAll draws j messages = Inr (map whitelistProjection messages)"
proof (induction messages arbitrary: j)
  case Nil
  then show ?case by simp
next
  case (Cons m ms)
  from Cons.prems have "tracesPushable m" by simp
  from sanitizeMessage_pushable [OF this, of "fst (draws j)" "snd (draws j)"] obtain m' where
    "sanitizeMessage (fst (draws j)) (snd (draws j)) m = Inr (m', whitelistProjection m)"
    by blast
  moreover from Cons have "sanitizeAll draws (Suc j) ms = Inr (map whitelistProjection ms)"
    by simp
  ultimately show ?case by simp
qed

lemma processBatch_pushable:
  assumes "list_all tracesPushable (batchMessages batch)"
  shows "processBatch draws conn batch = processBatch draws' conn batch
       \<and> snd (processBatch draws conn batch) = None"
proof -
  obtain metrics kept where f: "filterRoundTrip (batchMessages batch) = (metrics, kept)"
    by (cases "filterRoundTrip (batchMessages batch)")
  have "kept = filter (\<lambda>m. \<not> isRoundTrip m) (batchMessages batch)"
    using filterRoundTrip_kept [of "batchMessages batch"] f by simp
  with assms have "list_all tracesPushable kept"
    by (simp add: list_all_iff)
  then have "sanitizeAll draws 0 kept = Inr (map whitelistProjection kept)"
    and "sanitizeAll draws' 0 kept = Inr (map whitelistProjection kept)"
    by (simp_all add: sanitizeAll_pushable)
  with f show ?thesis by (simp add: processBatch_def)
qed

lemma processBatches_pushable:
  "list_all tracesPushable (concat (map batchMessages batches)) \<Longrightarrow>
   processBatches draws i conn batches = processBatches draws' i' conn batches
   \<and> snd (processBatches draws i conn batches) = None"
proof (induction batches arbitrary: i i')
  case Nil
  then show ?case by simp
next
  case (Cons b bs)
  from Cons.prems have b: "list_all tracesPushable (batchMessages b)"
    and bs: "list_all tracesPushable (concat (map batchMessages bs))" by simp_all
  note same = processBatch_pushable [OF b, of "draws i" conn "draws' i'"]
  from same have "snd (processBatch (draws i) conn b) = None" by (rule conjunct2)
  then obtain e1 where p: "processBatch (draws i) conn b = (e1, None)"
    by (cases "processBatch (draws i) conn b") simp
  from same have "processBatch (draws i) conn b = processBatch (draws' i') conn b"
    by (rule conjunct1)
  with p have p': "processBatch (draws' i') conn b = (e1, None)" by simp
  note rest = Cons.IH [OF bs, of "Suc i" "Suc i'"]
  from rest have "snd (processBatches draws (Suc i) conn bs) = None" by (rule conjunct2)
  then obtain e2 where q: "processBatches draws (Suc i) conn bs = (e2, None)"
    by (cases "processBatches draws (Suc i) conn bs") simp
  from rest have "processBatches draws (Suc i) conn bs
                    = processBatches draws' (Suc i') conn bs"
    by (rule conjunct1)
  with q have q': "processBatches draws' (Suc i') conn bs = (e2, None)" by simp
  from p p' q q' show ?case by simp
qed

lemmas submit_defs = submitOp_def processBatch_def sanitizeMessage_def sampleTrace_def
  traceSpan_def getField_def checkThrottle_def createNackMessage_def RoundTrip_def
  exampleOp_def exampleRoundTrip_def exampleDraws_def getSubmitOpThrottleId_def Let_def

lemma exampleOp_not_round_trip: "\<not> isRoundTrip exampleOp"
  by (simp add: isRoundTrip_def exampleOp_def getField_def RoundTrip_def)

section \<open>Claims about the submit-op handler\<close>

text \<open>
  C5. The claim: \<^verbatim>\<open>submitOp\<close> forwards a batch if and only if the client id is in
  \<open>connectionsMap\<close>, and otherwise emits exactly one nack, with a code from the table
  of three. A writer whose submit is throttled is in \<open>connectionsMap\<close>, yet its batch is
  not forwarded and the single nack carries the throttle's code, which is not in the
  table.
\<close>

theorem submitOp_throttled_counterexample:
  "connectionsMap writerSocket ''c1'' = Some exampleConnection
   \<and> submitOp throttledConfiguration exampleDraws writerSocket ''c1'' [SingleMessage exampleOp]
      = ([EmitNack [createNackMessage 429 ThrottlingError ''throttled'' (Some 1)]], None)"
  by (simp add: submit_defs example_defs)

text \<open>
  C5, amended. On a socket whose \<open>roomMap\<close> and \<open>scopeMap\<close> have the same keys, as
  every connect leaves them: if the client id is not in \<open>connectionsMap\<close>, nothing is
  forwarded and exactly one nack is emitted, (400, BadRequestError, "Readonly client")
  for a room member with write-capable scopes, (403, InvalidScopeError, "Invalid scope")
  for any other room member, (400, BadRequestError, "Nonexistent client") otherwise. A
  batch is forwarded only if the client id is in \<open>connectionsMap\<close> and the throttle lets
  the request pass. A throttled request of a connected client gets one throttling nack
  and nothing is forwarded. A request of a connected client that passes the throttle and
  completes forwards each batch that holds a message other than a round trip, in order,
  and emits no nack.
\<close>

theorem submitOp_gating:
  assumes keys: "dom (scopeMap s) = dom (roomMap s)"
  shows "(connectionsMap s cid = None
           \<longrightarrow> submitOp cfg draws s cid batches = ([EmitNack [specNack s cid]], None))
       \<and> (orderCalls (fst (submitOp cfg draws s cid batches)) \<noteq> []
           \<longrightarrow> (\<exists>conn. connectionsMap s cid = Some conn
                 \<and> checkThrottle (submitOpThrottler cfg)
                      (getSubmitOpThrottleId cid (ordererTenantId conn))
                      (ordererTenantId conn) = None))
       \<and> (\<forall>conn throttleError. connectionsMap s cid = Some conn
           \<longrightarrow> checkThrottle (submitOpThrottler cfg)
                 (getSubmitOpThrottleId cid (ordererTenantId conn)) (ordererTenantId conn)
                 = Some throttleError
           \<longrightarrow> submitOp cfg draws s cid batches =
                 ([EmitNack [createNackMessage (throttleCode throttleError) ThrottlingError
                               (throttleMessage throttleError)
                               (Some (throttleRetryAfter throttleError))]], None))
       \<and> (\<forall>conn. connectionsMap s cid = Some conn
           \<longrightarrow> checkThrottle (submitOpThrottler cfg)
                 (getSubmitOpThrottleId cid (ordererTenantId conn)) (ordererTenantId conn)
                 = None
           \<longrightarrow> snd (submitOp cfg draws s cid batches) = None
           \<longrightarrow> orderCalls (fst (submitOp cfg draws s cid batches)) = expectedOrders batches
               \<and> nackCalls (fst (submitOp cfg draws s cid batches)) = [])"
proof -
  let ?run = "submitOp cfg draws s cid batches"
  have "cid \<in> dom (roomMap s) \<longleftrightarrow> cid \<in> dom (scopeMap s)"
    using keys by simp
  then have room: "roomMap s cid = None \<longleftrightarrow> scopeMap s cid = None"
    by (simp only: domIff) blast
  have a: "?run = ([EmitNack [specNack s cid]], None)" if "connectionsMap s cid = None"
    using that room
    by (cases "scopeMap s cid"; cases "roomMap s cid")
       (simp_all add: submitOp_def specNack_def Let_def)
  have b: "\<exists>conn. connectionsMap s cid = Some conn
                 \<and> checkThrottle (submitOpThrottler cfg)
                      (getSubmitOpThrottleId cid (ordererTenantId conn))
                      (ordererTenantId conn) = None"
    if "orderCalls (fst ?run) \<noteq> []"
    using that
    by (auto simp: submitOp_def Let_def split: option.splits)
  have c: "?run = ([EmitNack [createNackMessage (throttleCode throttleError) ThrottlingError
                               (throttleMessage throttleError)
                               (Some (throttleRetryAfter throttleError))]], None)"
    if "connectionsMap s cid = Some conn"
      and "checkThrottle (submitOpThrottler cfg)
             (getSubmitOpThrottleId cid (ordererTenantId conn)) (ordererTenantId conn)
             = Some throttleError"
    for conn throttleError
    using that by (simp add: submitOp_def)
  have d: "orderCalls (fst ?run) = expectedOrders batches \<and> nackCalls (fst ?run) = []"
    if "connectionsMap s cid = Some conn"
      and "checkThrottle (submitOpThrottler cfg)
             (getSubmitOpThrottleId cid (ordererTenantId conn)) (ordererTenantId conn) = None"
      and "snd ?run = None"
    for conn
  proof -
    from that have eq: "?run = processBatches draws 0 conn batches"
      by (simp add: submitOp_def)
    with that(3) obtain effs where p: "processBatches draws 0 conn batches = (effs, None)"
      by (cases "processBatches draws 0 conn batches") simp
    from processBatches_orders [OF p] processBatches_nacks [of draws 0 conn batches] eq p
    show ?thesis by simp
  qed
  from a b c d show ?thesis by blast
qed

theorem submitOp_gating_witness:
  "dom (scopeMap readerSocket) = dom (roomMap readerSocket)
   \<and> connectionsMap readerSocket ''c2'' = None
   \<and> submitOp exampleConfiguration exampleDraws readerSocket ''c2'' [SingleMessage exampleOp]
      = ([EmitNack [createNackMessage 403 InvalidScopeError ''Invalid scope'' None]], None)
   \<and> dom (scopeMap writerSocket) = dom (roomMap writerSocket)
   \<and> connectionsMap writerSocket ''c1'' = Some exampleConnection
   \<and> orderCalls (fst (submitOp exampleConfiguration exampleDraws writerSocket ''c1''
                        [SingleMessage exampleOp]))
      = [[whitelistProjection exampleOp]]"
proof -
  let ?cfg = exampleConfiguration
  let ?batches = "[SingleMessage exampleOp]"
  have rk: "dom (scopeMap readerSocket) = dom (roomMap readerSocket)"
    by (simp add: readerSocket_def)
  have rn: "connectionsMap readerSocket ''c2'' = None"
    by (simp add: readerSocket_def)
  have rs: "specNack readerSocket ''c2''
              = createNackMessage 403 InvalidScopeError ''Invalid scope'' None"
    by (simp add: specNack_def readerSocket_def hasWriteAccess_def canWrite_def
        canSummarize_def DocRead_def DocWrite_def SummaryWrite_def)
  from submitOp_gating [OF rk, of "''c2''" ?cfg exampleDraws ?batches] rn rs
  have reader: "submitOp ?cfg exampleDraws readerSocket ''c2'' ?batches
      = ([EmitNack [createNackMessage 403 InvalidScopeError ''Invalid scope'' None]], None)"
    by simp
  have wk: "dom (scopeMap writerSocket) = dom (roomMap writerSocket)"
    by (simp add: writerSocket_def)
  have wc: "connectionsMap writerSocket ''c1'' = Some exampleConnection"
    by (simp add: writerSocket_def)
  have wt: "checkThrottle (submitOpThrottler ?cfg)
              (getSubmitOpThrottleId ''c1'' (ordererTenantId exampleConnection))
              (ordererTenantId exampleConnection) = None"
    by (simp add: checkThrottle_def exampleConfiguration_def)
  have wr: "snd (submitOp ?cfg exampleDraws writerSocket ''c1'' ?batches) = None"
    by (simp add: submit_defs example_defs)
  have we: "expectedOrders ?batches = [[whitelistProjection exampleOp]]"
    by (simp add: expectedOrders_def batchSurvivors_def exampleOp_not_round_trip)
  from submitOp_gating [OF wk, of "''c1''" ?cfg exampleDraws ?batches] wc wt wr we
  have writer: "orderCalls (fst (submitOp ?cfg exampleDraws writerSocket ''c1'' ?batches))
      = [[whitelistProjection exampleOp]]"
    by simp
  from rk rn reader wk wc writer show ?thesis by blast
qed

text \<open>
  C7. Every message that \<^verbatim>\<open>submitOp\<close> hands to the orderer has exactly the six
  fields \<open>clientSequenceNumber\<close>, \<open>contents\<close>, \<open>metadata\<close>,
  \<open>referenceSequenceNumber\<close>, \<open>traces\<close> and \<open>type\<close>, each with the value an inbound
  message of the request has for it; no other field name occurs in it.
\<close>

theorem submitOp_forwards_whitelist:
  assumes "Order c forwarded \<in> set (fst (submitOp cfg draws s cid batches))"
    and "sanitized \<in> set forwarded"
  shows "\<exists>inbound \<in> set (concat (map batchMessages batches)).
           map fst sanitized = sanitizedFieldNames
         \<and> (\<forall>k \<in> set sanitizedFieldNames. map_of sanitized k = Some (getField inbound k))
         \<and> (\<forall>k. k \<notin> set sanitizedFieldNames \<longrightarrow> map_of sanitized k = None)"
proof -
  from submitOp_order [OF assms(1)] obtain batch where b: "batch \<in> set batches"
    and f: "forwarded = map whitelistProjection (batchSurvivors batch)" by blast
  from f assms(2) obtain inbound where i: "inbound \<in> set (batchSurvivors batch)"
    and s: "sanitized = whitelistProjection inbound" by auto
  from i b have "inbound \<in> set (concat (map batchMessages batches))"
    by (auto simp: batchSurvivors_def)
  with s show ?thesis
    by (auto simp: whitelistProjection_keys whitelistProjection_lookup)
qed

theorem submitOp_forwards_whitelist_witness:
  "Order exampleConnection [whitelistProjection exampleOp]
     \<in> set (fst (submitOp exampleConfiguration exampleDraws writerSocket ''c1''
                    [SingleMessage exampleOp]))
   \<and> whitelistProjection exampleOp \<in> set [whitelistProjection exampleOp]
   \<and> getField exampleOp ''secret'' = JStr ''s''
   \<and> map fst (whitelistProjection exampleOp) = sanitizedFieldNames
   \<and> map_of (whitelistProjection exampleOp) ''contents'' = Some (JStr ''x'')
   \<and> map_of (whitelistProjection exampleOp) ''secret'' = None"
proof -
  let ?run = "submitOp exampleConfiguration exampleDraws writerSocket ''c1''
                [SingleMessage exampleOp]"
  have sent: "Order exampleConnection [whitelistProjection exampleOp] \<in> set (fst ?run)"
    by (simp add: submit_defs example_defs whitelistProjection_def sanitizedFieldNames_def
        setField.simps)
  have mem: "whitelistProjection exampleOp \<in> set [whitelistProjection exampleOp]"
    by simp
  have secret: "getField exampleOp ''secret'' = JStr ''s''"
    by (simp add: exampleOp_def getField_def)
  have contents: "getField exampleOp ''contents'' = JStr ''x''"
    by (simp add: exampleOp_def getField_def)
  from submitOp_forwards_whitelist [OF sent mem] contents
  have "map fst (whitelistProjection exampleOp) = sanitizedFieldNames
        \<and> map_of (whitelistProjection exampleOp) ''contents'' = Some (JStr ''x'')
        \<and> map_of (whitelistProjection exampleOp) ''secret'' = None"
    by (auto simp: sanitizedFieldNames_def)
  with sent mem secret show ?thesis by blast
qed




text \<open>
  C10. The claim: for every inbound op the sanitized message is the same whether or not
  the sampling branch fires, so that what is forwarded does not depend on the draw. The
  branch is entered for any truthy \<open>operation.traces\<close> and calls \<open>push\<close> on it: for
  an op whose \<open>operation.traces\<close> is a string, the draw 0 raises and no message is
  built, while any other draw builds one; a writer's request holding that op forwards
  nothing under the first draw and the op's projection under the second.
\<close>

theorem sanitizeMessage_sampling_counterexample:
  "sanitizeMessage 0 5 malformedOp
     = Inl (TypeError ''message.operation.traces.push is not a function'')
   \<and> sanitizeMessage 1 5 malformedOp = Inr (malformedOp, whitelistProjection malformedOp)
   \<and> submitOp exampleConfiguration exampleDraws writerSocket ''c1''
        [SingleMessage malformedOp]
      = ([], Some (TypeError ''message.operation.traces.push is not a function''))
   \<and> submitOp exampleConfiguration quietDraws writerSocket ''c1''
        [SingleMessage malformedOp]
      = ([Order exampleConnection [whitelistProjection malformedOp]], None)"
  by (simp add: submit_defs example_defs malformedOp_def quietDraws_def
      whitelistProjection_def sanitizedFieldNames_def)

text \<open>
  C10, amended. For every inbound op whose \<open>operation.traces\<close> is absent, falsy or an
  array, \<^verbatim>\<open>sanitizeMessage\<close> returns under every draw, and the message it builds
  for the orderer is the same whether or not the sampling branch fires: the projection of
  the op as it arrived, because the sampled span goes into \<open>operation.traces\<close> and
  \<open>operation\<close> is not one of the six projected fields. A \<^verbatim>\<open>submitOp\<close> request made
  of such ops completes and makes the same calls whatever the draws. For any inbound op,
  \<^verbatim>\<open>sanitizeMessage\<close> returns when the draw is not 0, and whenever it returns, the
  message it built is that projection.
\<close>

theorem sanitizeMessage_independent_of_sampling:
  "(sanitizeMessage rnd now message = Inr (message', sanitized)
      \<longrightarrow> sanitized = whitelistProjection message)
   \<and> (rnd \<noteq> 0 \<or> tracesPushable message
      \<longrightarrow> (\<exists>m. sanitizeMessage rnd now message = Inr (m, whitelistProjection message)))
   \<and> (list_all tracesPushable (concat (map batchMessages batches))
      \<longrightarrow> submitOp cfg draws s cid batches = submitOp cfg draws' s cid batches
          \<and> snd (submitOp cfg draws s cid batches) = None)"
proof -
  have a: "sanitized = whitelistProjection message"
    if "sanitizeMessage rnd now message = Inr (message', sanitized)"
    using sanitizeMessage_projection [OF that] .
  have b: "\<exists>m. sanitizeMessage rnd now message = Inr (m, whitelistProjection message)"
    if "rnd \<noteq> 0 \<or> tracesPushable message"
  proof -
    from that obtain m where m: "sampleTrace rnd now message = Inr m"
      using sampleTrace_no_draw [of rnd now message] sampleTrace_pushable [of message rnd now]
      by blast
    then obtain sanitized' where s: "sanitizeMessage rnd now message = Inr (m, sanitized')"
      by (simp add: sanitizeMessage_def)
    from sanitizeMessage_projection [OF s] s show ?thesis by blast
  qed
  have c: "submitOp cfg draws s cid batches = submitOp cfg draws' s cid batches
          \<and> snd (submitOp cfg draws s cid batches) = None"
    if p: "list_all tracesPushable (concat (map batchMessages batches))"
  proof (cases "connectionsMap s cid")
    case None
    then show ?thesis by (simp add: submitOp_def Let_def)
  next
    case (Some conn)
    note same = processBatches_pushable [OF p, of draws 0 conn draws' 0]
    from same have eq: "processBatches draws 0 conn batches
                          = processBatches draws' 0 conn batches"
      by (rule conjunct1)
    from same have complete: "snd (processBatches draws 0 conn batches) = None"
      by (rule conjunct2)
    from Some eq have "submitOp cfg draws s cid batches = submitOp cfg draws' s cid batches"
      by (simp add: submitOp_def split: option.splits)
    moreover from Some complete have "snd (submitOp cfg draws s cid batches) = None"
      by (simp add: submitOp_def split: option.splits)
    ultimately show ?thesis by blast
  qed
  from a b c show ?thesis by blast
qed

theorem sanitizeMessage_independent_of_sampling_witness:
  "tracesPushable exampleOp
   \<and> sanitizeMessage 0 5 exampleOp
      = Inr (setField ''operation'' (JObj [(''traces'', JArr [traceSpan 5])]) exampleOp,
             whitelistProjection exampleOp)
   \<and> sanitizeMessage 1 5 exampleOp = Inr (exampleOp, whitelistProjection exampleOp)
   \<and> setField ''operation'' (JObj [(''traces'', JArr [traceSpan 5])]) exampleOp \<noteq> exampleOp
   \<and> list_all tracesPushable (concat (map batchMessages [SingleMessage exampleOp]))
   \<and> submitOp exampleConfiguration exampleDraws writerSocket ''c1'' [SingleMessage exampleOp]
      = submitOp exampleConfiguration quietDraws writerSocket ''c1'' [SingleMessage exampleOp]"
proof -
  let ?sampled = "setField ''operation'' (JObj [(''traces'', JArr [traceSpan 5])]) exampleOp"
  have p: "tracesPushable exampleOp"
    by (simp add: tracesPushable_def exampleOp_def getField_def)
  have fired: "sampleTrace 0 5 exampleOp = Inr ?sampled"
    by (simp add: sampleTrace_def exampleOp_def getField_def Let_def)
  have quiet: "sampleTrace 1 5 exampleOp = Inr exampleOp"
    by (simp add: sampleTrace_def Let_def)
  have differ: "?sampled \<noteq> exampleOp"
    by (simp add: exampleOp_def)
  from fired obtain s0 where s0: "sanitizeMessage 0 5 exampleOp = Inr (?sampled, s0)"
    by (simp add: sanitizeMessage_def)
  from quiet obtain s1 where s1: "sanitizeMessage 1 5 exampleOp = Inr (exampleOp, s1)"
    by (simp add: sanitizeMessage_def)
  from sanitizeMessage_independent_of_sampling
         [where rnd = 0 and now = 5 and message = exampleOp and message' = ?sampled
            and sanitized = s0] s0
  have e0: "s0 = whitelistProjection exampleOp" by blast
  from sanitizeMessage_independent_of_sampling
         [where rnd = 1 and now = 5 and message = exampleOp and message' = exampleOp
            and sanitized = s1] s1
  have e1: "s1 = whitelistProjection exampleOp" by blast
  have all: "list_all tracesPushable (concat (map batchMessages [SingleMessage exampleOp]))"
    using p by simp
  from sanitizeMessage_independent_of_sampling
         [where batches = "[SingleMessage exampleOp]" and cfg = exampleConfiguration
            and draws = exampleDraws and draws' = quietDraws and s = writerSocket
            and cid = "''c1''"] all
  have same: "submitOp exampleConfiguration exampleDraws writerSocket ''c1''
                [SingleMessage exampleOp]
              = submitOp exampleConfiguration quietDraws writerSocket ''c1''
                  [SingleMessage exampleOp]"
    by blast
  from p s0 s1 e0 e1 differ all same show ?thesis by simp
qed

end
